theory Spec2Isabelle
  imports Main
begin

section \<open>The secure vault of FamilyHub: PIN, lockout and PIN-gated secret access\<close>

text \<open>
  This theory embeds the module \<^verbatim>\<open>secure-vault\<close> (\<^verbatim>\<open>src/unnamed/part_010\<close>): the secret
  store adapter (\<^verbatim>\<open>saveSecret\<close>, \<^verbatim>\<open>getSecret\<close>), the PIN credential manager
  (\<^verbatim>\<open>saveUserPin\<close>, \<^verbatim>\<open>hasUserPin\<close>), the lockout tracker (\<^verbatim>\<open>getLockoutStatus\<close>,
  \<^verbatim>\<open>recordFailedAttempt\<close>, \<^verbatim>\<open>clearUserLockout\<close>) and the access controller
  (\<^verbatim>\<open>verifyUserPin\<close>, \<^verbatim>\<open>getSecretWithPin\<close>).

  Every function of the module is asynchronous and talks to an Azure Key Vault through
  \<^verbatim>\<open>SecretClient\<close>. The model is sequential: each function takes the world before the
  call and returns its result together with the world after it. A thrown exception is the
  left injection of the result; the world returned with it keeps the writes made before
  the throw.
\<close>

subsection \<open>JavaScript values the module handles\<close>

text \<open>
  Exceptions. \<open>RestError code statusCode\<close> is what the Key Vault client throws; the
  module only ever inspects \<^verbatim>\<open>error.code\<close> and \<^verbatim>\<open>error.statusCode\<close>. \<open>Error msg\<close> is a
  plain \<^verbatim>\<open>new Error(msg)\<close>, \<open>TypeError\<close> and \<open>SyntaxError\<close> are the built-in ones
  (\<open>TypeError\<close> is thrown by \<^verbatim>\<open>crypto.pbkdf2Sync\<close> on a salt that is not a string, by
  a property access on \<^verbatim>\<open>null\<close> and, the module being strict code, by an assignment to a
  property of a primitive value; \<open>SyntaxError\<close> by \<^verbatim>\<open>JSON.parse\<close>); none of the three has
  a \<^verbatim>\<open>statusCode\<close> or the code \<^verbatim>\<open>SecretNotFound\<close>.
\<close>

datatype jsError =
    RestError string nat
  | Error string
  | TypeError
  | SyntaxError

text \<open>
  The test \<^verbatim>\<open>azureError.code === 'SecretNotFound' || azureError.statusCode === 404\<close>
  that \<^verbatim>\<open>getSecret\<close>, \<^verbatim>\<open>hasUserPin\<close>, \<^verbatim>\<open>getLockoutStatus\<close> and \<^verbatim>\<open>verifyUserPin\<close> share.
\<close>

fun isNotFound :: "jsError \<Rightarrow> bool" where
  "isNotFound (RestError code statusCode) = (code = ''SecretNotFound'' \<or> statusCode = 404)"
| "isNotFound (Error msg) = False"
| "isNotFound TypeError = False"
| "isNotFound SyntaxError = False"

text \<open>
  The objects the module serialises with \<^verbatim>\<open>JSON.stringify\<close> and reads back with
  \<^verbatim>\<open>JSON.parse\<close>: \<^verbatim>\<open>{ hash, salt }\<close> for a PIN and \<^verbatim>\<open>{ failedAttempts, lockedUntil }\<close> for
  a lockout. \<^verbatim>\<open>recordFailedAttempt\<close> parses whatever object is stored, assigns two
  properties and writes the object back, so one object type with four optional
  properties covers everything the module can write. \<open>None\<close> is a property that is
  absent or \<^verbatim>\<open>null\<close> (the module only tests such a property for truthiness). Timestamps
  are milliseconds since the epoch, as \<^verbatim>\<open>Date.now()\<close> returns them.
\<close>

record jsonObject =
  hash :: "string option"
  salt :: "string option"
  failedAttempts :: "nat option"
  lockedUntil :: "nat option"

text \<open>
  A stored secret value is a string. \<open>Json obj\<close> is the string \<^verbatim>\<open>JSON.stringify(obj)\<close>
  that the module writes for the object \<open>obj\<close>; \<^verbatim>\<open>JSON.parse\<close> reads it back as \<open>obj\<close>.
  \<open>Text s\<close> is the string \<open>s\<close> as a caller of \<^verbatim>\<open>saveSecret\<close> gave it; what
  \<^verbatim>\<open>JSON.parse\<close> makes of it is a parameter of the world (\<open>jsonParse\<close> below).
  \<open>Text []\<close> is the empty string, the one falsy value.
\<close>

datatype secretValue = Text string | Json jsonObject

text \<open>
  What \<^verbatim>\<open>JSON.parse\<close> can return, as far as the module can tell the values apart:
  \<^verbatim>\<open>null\<close>; a number, string or boolean; an array (kept with the text that
  \<^verbatim>\<open>JSON.stringify\<close> gives back for it, which ignores the properties assigned to it);
  an object, read through the four properties above. An object whose properties hold
  values of other types than \<open>jsonObject\<close> allows is outside the model.
\<close>

datatype jsonValue =
    JsonNull
  | JsonPrimitive
  | JsonArray string
  | JsonObject jsonObject

fun truthyValue :: "secretValue \<Rightarrow> bool" where
  "truthyValue (Text s) = (s \<noteq> [])"
| "truthyValue (Json obj) = True"

text \<open>\<^verbatim>\<open>x || 0\<close> and the truthiness of a number that may be \<^verbatim>\<open>null\<close> or \<^verbatim>\<open>undefined\<close>.\<close>

fun orZero :: "nat option \<Rightarrow> nat" where
  "orZero None = 0"
| "orZero (Some n) = n"

fun truthy :: "nat option \<Rightarrow> bool" where
  "truthy None = False"
| "truthy (Some n) = (n \<noteq> 0)"

text \<open>
  A user id and a key are JavaScript strings: sequences of UTF-16 code units, here
  natural numbers (a code unit is below 65536; nothing in the model needs the bound).
  They are the strings the module looks into, unit by unit, when it derives a secret
  name. PINs, salts, hashes, secret values and secret names are kept as strings of
  characters. \<open>codeUnits\<close> gives the code units of a literal of the source, so that
  the template \<^verbatim>\<open>`${userId}-system-pin`\<close> is \<open>userId @ codeUnits ''-system-pin''\<close>.
\<close>

type_synonym jsString = "nat list"

definition codeUnits :: "string \<Rightarrow> jsString" where
  "codeUnits s = map of_char s"

subsection \<open>The world: vault, clock, randomness, key derivation\<close>

text \<open>
  \<open>event\<close> is bookkeeping of the model, not of the program: the trace records each
  entry into \<^verbatim>\<open>getSecret\<close> (with its arguments) and each call of \<^verbatim>\<open>hashPin\<close> that
  returns a hash, so that "is never called" can be stated.
\<close>

datatype event =
    GetSecretCalled jsString string jsString
  | HashPinCalled string string

text \<open>
  \<^item> \<open>vaultUrl\<close>: \<^verbatim>\<open>process.env.AZURE_KEY_VAULT_URL\<close>, \<open>None\<close> when unset.
  \<^item> \<open>secrets\<close>: the vault, from secret names to values. Tags are not modelled: the
    functions embedded here never read them.
  \<^item> \<open>faults\<close>: the outages ahead. Each call of the client takes the head of the list:
    \<open>Some e\<close> makes that call throw \<open>e\<close> and leave the vault alone, \<open>None\<close> (or an
    empty list) lets it through.
  \<^item> \<open>now\<close>: what \<^verbatim>\<open>Date.now()\<close> returns during the call. A call reads the clock at
    most twice (in \<^verbatim>\<open>getLockoutStatus\<close> and in \<^verbatim>\<open>recordFailedAttempt\<close>); both readings
    are this one value.
  \<^item> \<open>entropy\<close>: the bytes \<^verbatim>\<open>crypto.randomBytes(32)\<close> returns during the call.
  \<^item> \<open>pbkdf2Sync\<close>: \<^verbatim>\<open>crypto.pbkdf2Sync(password, salt, iterations, keylen, digest)\<close>,
    a parameter.
  \<^item> \<open>jsonParse\<close>: \<^verbatim>\<open>JSON.parse\<close> on a string, a parameter; \<open>None\<close> when it throws
    \<open>SyntaxError\<close>.
  \<^item> \<open>trace\<close>: the events so far, latest first.
\<close>

record world =
  vaultUrl :: "string option"
  secrets :: "string \<Rightarrow> secretValue option"
  faults :: "jsError option list"
  now :: nat
  entropy :: string
  pbkdf2Sync :: "string \<Rightarrow> string \<Rightarrow> nat \<Rightarrow> nat \<Rightarrow> string \<Rightarrow> string"
  jsonParse :: "string \<Rightarrow> jsonValue option"
  trace :: "event list"

type_synonym 'a outcome = "(jsError + 'a) \<times> world"

text \<open>\<^verbatim>\<open>JSON.parse(secret.value)\<close> on a stored value; \<open>None\<close> when it throws.\<close>

fun JSON_parse :: "world \<Rightarrow> secretValue \<Rightarrow> jsonValue option" where
  "JSON_parse w (Text s) = jsonParse w s"
| "JSON_parse w (Json obj) = Some (JsonObject obj)"

definition MAX_PIN_ATTEMPTS :: nat where
  "MAX_PIN_ATTEMPTS = 3"

definition LOCKOUT_DURATION_MS :: nat where
  "LOCKOUT_DURATION_MS = 15 * 60 * 1000"

subsection \<open>The Key Vault client\<close>

text \<open>
  The contract of the remote store: \<^verbatim>\<open>set(name, value)\<close>, \<^verbatim>\<open>get(name)\<close> giving the value
  or the error \<^verbatim>\<open>SecretNotFound\<close> (HTTP 404), \<^verbatim>\<open>delete(name)\<close>, which removes the secret
  at once and fails with the same error when there is none. Any call can fail with the
  next scheduled fault instead.
\<close>

definition nextFault :: "world \<Rightarrow> jsError option \<times> world" where
  "nextFault w =
     (case faults w of
        [] \<Rightarrow> (None, w)
      | f # fs \<Rightarrow> (f, w\<lparr>faults := fs\<rparr>))"

definition secretNotFound :: jsError where
  "secretNotFound = RestError ''SecretNotFound'' 404"

definition client_getSecret :: "world \<Rightarrow> string \<Rightarrow> secretValue outcome" where
  "client_getSecret w name =
     (case nextFault w of
        (Some e, w1) \<Rightarrow> (Inl e, w1)
      | (None, w1) \<Rightarrow>
          (case secrets w1 name of
             None \<Rightarrow> (Inl secretNotFound, w1)
           | Some v \<Rightarrow> (Inr v, w1)))"

definition client_setSecret :: "world \<Rightarrow> string \<Rightarrow> secretValue \<Rightarrow> unit outcome" where
  "client_setSecret w name v =
     (case nextFault w of
        (Some e, w1) \<Rightarrow> (Inl e, w1)
      | (None, w1) \<Rightarrow> (Inr (), w1\<lparr>secrets := (secrets w1)(name := Some v)\<rparr>))"

definition client_beginDeleteSecret :: "world \<Rightarrow> string \<Rightarrow> unit outcome" where
  "client_beginDeleteSecret w name =
     (case nextFault w of
        (Some e, w1) \<Rightarrow> (Inl e, w1)
      | (None, w1) \<Rightarrow>
          (case secrets w1 name of
             None \<Rightarrow> (Inl secretNotFound, w1)
           | Some v \<Rightarrow> (Inr (), w1\<lparr>secrets := (secrets w1)(name := None)\<rparr>)))"

text \<open>
  \<^verbatim>\<open>getClient\<close> throws when the vault URL is unset or empty (\<^verbatim>\<open>!vaultUrl\<close>). The client it
  caches never changes afterwards, and the URL is a constant of the module, so the cache
  is not modelled.
\<close>

definition getClient :: "world \<Rightarrow> jsError + unit" where
  "getClient w =
     (case vaultUrl w of
        None \<Rightarrow> Inl (Error ''AZURE_KEY_VAULT_URL environment variable is not set'')
      | Some url \<Rightarrow>
          if url = [] then Inl (Error ''AZURE_KEY_VAULT_URL environment variable is not set'')
          else Inr ())"

subsection \<open>Secret names\<close>

text \<open>
  \<^verbatim>\<open>toLowerCase\<close>, as far as the replacement that follows it can tell. It maps
  \<^verbatim>\<open>A\<close>..\<^verbatim>\<open>Z\<close> (65..90) to \<^verbatim>\<open>a\<close>..\<^verbatim>\<open>z\<close>, U+0130 (304, capital I with dot above) to the two
  code units \<^verbatim>\<open>i\<close> (105) and U+0307 (775), and U+212A (8490, the Kelvin sign) to \<^verbatim>\<open>k\<close> (107).
  Every other code unit is left as it is here. In JavaScript some of them change, but
  into as many code units and into none of \<^verbatim>\<open>[a-z0-9-]\<close>, so that the replacement turns
  them into dashes either way; U+0130 is the one character whose lower case is longer.
\<close>

definition lowerUnit :: "nat \<Rightarrow> nat list" where
  "lowerUnit u =
     (if 65 \<le> u \<and> u \<le> 90 then [u + 32]
      else if u = 304 then [105, 775]
      else if u = 8490 then [107]
      else [u])"

definition toLowerCase :: "jsString \<Rightarrow> jsString" where
  "toLowerCase s = concat (map lowerUnit s)"

text \<open>
  \<^verbatim>\<open>.replace(/[^a-z0-9-]/g, '-')\<close>: a code unit that is the one of a lower case
  letter, of a digit or of the dash stays, every other one becomes a dash. What is left
  are characters of ASCII, so a secret name is a \<open>string\<close>.
\<close>

definition nameChars :: string where
  "nameChars = ''abcdefghijklmnopqrstuvwxyz0123456789-''"

definition replaceUnit :: "nat \<Rightarrow> char" where
  "replaceUnit u =
     (case find (\<lambda>c. of_char c = u) nameChars of
        None \<Rightarrow> CHR ''-''
      | Some c \<Rightarrow> c)"

text \<open>\<^verbatim>\<open>.toLowerCase().replace(/[^a-z0-9-]/g, '-').substring(0, 127)\<close>\<close>

definition sanitizeName :: "jsString \<Rightarrow> string" where
  "sanitizeName s = take 127 (map replaceUnit (toLowerCase s))"

datatype SecretCategory = Financial | Identity | Medical

fun categoryString :: "SecretCategory \<Rightarrow> string" where
  "categoryString Financial = ''financial''"
| "categoryString Identity = ''identity''"
| "categoryString Medical = ''medical''"

definition getSecretName :: "jsString \<Rightarrow> SecretCategory \<Rightarrow> jsString \<Rightarrow> string" where
  "getSecretName userId category key =
     sanitizeName (userId @ codeUnits ''-'' @ codeUnits (categoryString category)
                     @ codeUnits ''-'' @ key)"

definition getPinSecretName :: "jsString \<Rightarrow> string" where
  "getPinSecretName userId = sanitizeName (userId @ codeUnits ''-system-pin'')"

definition getLockoutSecretName :: "jsString \<Rightarrow> string" where
  "getLockoutSecretName userId = sanitizeName (userId @ codeUnits ''-system-lockout'')"

subsection \<open>Secret store adapter\<close>

text \<open>
  \<^verbatim>\<open>saveSecret\<close> stores the value as it is given, whatever it is; the tags are not
  modelled. Should the name be read as a PIN or lockout name later, the value goes
  through \<open>JSON_parse\<close> like any other.
\<close>

definition saveSecret ::
  "world \<Rightarrow> jsString \<Rightarrow> SecretCategory \<Rightarrow> jsString \<Rightarrow> string \<Rightarrow> unit outcome" where
  "saveSecret w userId category key v =
     (case getClient w of
        Inl e \<Rightarrow> (Inl e, w)
      | Inr _ \<Rightarrow> client_setSecret w (getSecretName userId category key) (Text v))"

text \<open>
  \<^verbatim>\<open>getSecret\<close> returns \<^verbatim>\<open>secret.value || null\<close>: \<open>None\<close> is \<^verbatim>\<open>null\<close>. A missing secret
  is \<^verbatim>\<open>null\<close> too; any other failure is thrown on.
\<close>

definition getSecret ::
  "world \<Rightarrow> jsString \<Rightarrow> SecretCategory \<Rightarrow> jsString \<Rightarrow> secretValue option outcome" where
  "getSecret w userId category key =
     (let w0 = w\<lparr>trace := GetSecretCalled userId (categoryString category) key # trace w\<rparr>
      in (case getClient w0 of
            Inl e \<Rightarrow> (Inl e, w0)
          | Inr u \<Rightarrow>
              (case client_getSecret w0 (getSecretName userId category key) of
                 (Inr v, w1) \<Rightarrow> (Inr (if truthyValue v then Some v else None), w1)
               | (Inl e, w1) \<Rightarrow> if isNotFound e then (Inr None, w1) else (Inl e, w1))))"

subsection \<open>PIN management\<close>

text \<open>\<^verbatim>\<open>Buffer.toString('hex')\<close>\<close>

definition hexDigit :: "nat \<Rightarrow> char" where
  "hexDigit n = ''0123456789abcdef'' ! (n mod 16)"

definition toHex :: "string \<Rightarrow> string" where
  "toHex bytes = concat (map (\<lambda>c. [hexDigit (of_char c div 16), hexDigit (of_char c)]) bytes)"

definition hashPin :: "world \<Rightarrow> string \<Rightarrow> string \<Rightarrow> string" where
  "hashPin w pin slt = toHex (pbkdf2Sync w pin slt 100000 64 ''sha512'')"

text \<open>\<^verbatim>\<open>/^\d{4,6}$/.test(pin)\<close>\<close>

definition isDigit :: "char \<Rightarrow> bool" where
  "isDigit c = (c \<in> set ''0123456789'')"

definition pinFormat :: "string \<Rightarrow> bool" where
  "pinFormat pin = (4 \<le> length pin \<and> length pin \<le> 6 \<and> list_all isDigit pin)"

text \<open>
  \<^verbatim>\<open>clearUserLockout\<close> swallows whatever \<^verbatim>\<open>beginDeleteSecret\<close> throws; only \<^verbatim>\<open>getClient\<close>,
  called before the \<^verbatim>\<open>try\<close>, can make it throw.
\<close>

definition clearUserLockout :: "world \<Rightarrow> jsString \<Rightarrow> unit outcome" where
  "clearUserLockout w userId =
     (case getClient w of
        Inl e \<Rightarrow> (Inl e, w)
      | Inr _ \<Rightarrow> (Inr (), snd (client_beginDeleteSecret w (getLockoutSecretName userId))))"

definition saveUserPin :: "world \<Rightarrow> jsString \<Rightarrow> string \<Rightarrow> unit outcome" where
  "saveUserPin w userId pin =
     (case getClient w of
        Inl e \<Rightarrow> (Inl e, w)
      | Inr _ \<Rightarrow>
          if \<not> pinFormat pin then (Inl (Error ''PIN must be 4-6 digits''), w)
          else
            let slt = toHex (entropy w);
                hashedPin = hashPin w pin slt;
                w0 = w\<lparr>trace := HashPinCalled pin slt # trace w\<rparr>
            in (case client_setSecret w0 (getPinSecretName userId)
                       (Json \<lparr>hash = Some hashedPin, salt = Some slt,
                              failedAttempts = None, lockedUntil = None\<rparr>) of
                  (Inl e, w1) \<Rightarrow> (Inl e, w1)
                | (Inr u, w1) \<Rightarrow> clearUserLockout w1 userId))"

definition hasUserPin :: "world \<Rightarrow> jsString \<Rightarrow> bool outcome" where
  "hasUserPin w userId =
     (case getClient w of
        Inl e \<Rightarrow> (Inl e, w)
      | Inr _ \<Rightarrow>
          (case client_getSecret w (getPinSecretName userId) of
             (Inr v, w1) \<Rightarrow> (Inr True, w1)
           | (Inl e, w1) \<Rightarrow> if isNotFound e then (Inr False, w1) else (Inl e, w1)))"

subsection \<open>Lockout tracker\<close>

record lockoutStatus =
  locked :: bool
  attemptsLeft :: int
  unlockTime :: "nat option"

definition unlockedStatus :: "int \<Rightarrow> lockoutStatus" where
  "unlockedStatus n = \<lparr>locked = False, attemptsLeft = n, unlockTime = None\<rparr>"

definition lockedStatus :: "nat \<Rightarrow> lockoutStatus" where
  "lockedStatus t = \<lparr>locked = True, attemptsLeft = 0, unlockTime = Some t\<rparr>"

text \<open>
  \<^verbatim>\<open>getLockoutStatus\<close>. A value that does not parse makes \<^verbatim>\<open>JSON.parse\<close> throw, and
  \<^verbatim>\<open>null\<close> makes the first property access throw; both exceptions are caught and, not
  being a 404, thrown on. A primitive value or an array has none of the two properties:
  the last \<^verbatim>\<open>return\<close> is reached with \<^verbatim>\<open>failedAttempts || 0\<close> being 0. On an object
  the three tests follow in the order of the source. \<^verbatim>\<open>clearUserLockout\<close> runs inside
  the \<^verbatim>\<open>try\<close>: what it throws (never a 404) is thrown on by the \<^verbatim>\<open>catch\<close>.
\<close>

definition getLockoutStatus :: "world \<Rightarrow> jsString \<Rightarrow> lockoutStatus outcome" where
  "getLockoutStatus w userId =
     (case getClient w of
        Inl e \<Rightarrow> (Inl e, w)
      | Inr u \<Rightarrow>
          (case client_getSecret w (getLockoutSecretName userId) of
             (Inl e, w1) \<Rightarrow>
               if isNotFound e then (Inr (unlockedStatus (int MAX_PIN_ATTEMPTS)), w1)
               else (Inl e, w1)
           | (Inr v, w1) \<Rightarrow>
               if \<not> truthyValue v then (Inr (unlockedStatus (int MAX_PIN_ATTEMPTS)), w1)
               else
                 (case JSON_parse w1 v of
                    None \<Rightarrow> (Inl SyntaxError, w1)
                  | Some JsonNull \<Rightarrow> (Inl TypeError, w1)
                  | Some JsonPrimitive \<Rightarrow> (Inr (unlockedStatus (int MAX_PIN_ATTEMPTS)), w1)
                  | Some (JsonArray txt) \<Rightarrow> (Inr (unlockedStatus (int MAX_PIN_ATTEMPTS)), w1)
                  | Some (JsonObject lockoutData) \<Rightarrow>
                      if truthy (lockedUntil lockoutData)
                          \<and> now w1 < orZero (lockedUntil lockoutData)
                      then (Inr (lockedStatus (orZero (lockedUntil lockoutData))), w1)
                      else if truthy (lockedUntil lockoutData)
                            \<and> now w1 \<ge> orZero (lockedUntil lockoutData)
                      then (case clearUserLockout w1 userId of
                              (Inl e, w2) \<Rightarrow>
                                if isNotFound e
                                then (Inr (unlockedStatus (int MAX_PIN_ATTEMPTS)), w2)
                                else (Inl e, w2)
                            | (Inr u2, w2) \<Rightarrow>
                                (Inr (unlockedStatus (int MAX_PIN_ATTEMPTS)), w2))
                      else (Inr (unlockedStatus
                                   (int MAX_PIN_ATTEMPTS
                                      - int (orZero (failedAttempts lockoutData)))),
                            w1))))"

text \<open>
  \<^verbatim>\<open>recordFailedAttempt\<close> starts from \<^verbatim>\<open>{ failedAttempts: 0, lockedUntil: null }\<close> and
  replaces it by the parsed value when the read succeeds with a truthy value that
  parses. Its \<^verbatim>\<open>catch\<close> has no test: every failure of the read (a missing secret, an
  outage, a value that does not parse) leaves the fresh object in place.

  The statements after the \<^verbatim>\<open>try\<close> are not guarded. On \<^verbatim>\<open>null\<close> the first of them
  throws when it reads \<^verbatim>\<open>failedAttempts\<close>, on a primitive value when it assigns it. An
  array takes the assignment, counts 1, and is written back as the array it was. On an
  object the counter is incremented, the lockout is set from 3 on, and the object is
  written back.
\<close>

definition freshLockoutData :: jsonObject where
  "freshLockoutData =
     \<lparr>hash = None, salt = None, failedAttempts = Some 0, lockedUntil = None\<rparr>"

definition recordFailedAttempt :: "world \<Rightarrow> jsString \<Rightarrow> lockoutStatus outcome" where
  "recordFailedAttempt w userId =
     (case getClient w of
        Inl e \<Rightarrow> (Inl e, w)
      | Inr u \<Rightarrow>
          (let (existing, w1) = client_getSecret w (getLockoutSecretName userId);
               lockoutData0 =
                 (case existing of
                    Inl e \<Rightarrow> JsonObject freshLockoutData
                  | Inr v \<Rightarrow>
                      if truthyValue v
                      then (case JSON_parse w1 v of
                              None \<Rightarrow> JsonObject freshLockoutData
                            | Some parsed \<Rightarrow> parsed)
                      else JsonObject freshLockoutData)
           in (case lockoutData0 of
                 JsonNull \<Rightarrow> (Inl TypeError, w1)
               | JsonPrimitive \<Rightarrow> (Inl TypeError, w1)
               | JsonArray txt \<Rightarrow>
                   (case client_setSecret w1 (getLockoutSecretName userId) (Text txt) of
                      (Inl e, w2) \<Rightarrow> (Inl e, w2)
                    | (Inr u2, w2) \<Rightarrow>
                        (Inr (unlockedStatus (int MAX_PIN_ATTEMPTS - 1)), w2))
               | JsonObject obj \<Rightarrow>
                   (let n = orZero (failedAttempts obj) + 1;
                        lockoutData1 = obj\<lparr>failedAttempts := Some n\<rparr>;
                        lockoutData2 =
                          (if n \<ge> MAX_PIN_ATTEMPTS
                           then lockoutData1\<lparr>lockedUntil := Some (now w1 + LOCKOUT_DURATION_MS)\<rparr>
                           else lockoutData1)
                    in (case client_setSecret w1 (getLockoutSecretName userId)
                               (Json lockoutData2) of
                          (Inl e, w2) \<Rightarrow> (Inl e, w2)
                        | (Inr u2, w2) \<Rightarrow>
                            if truthy (lockedUntil lockoutData2)
                            then (Inr (lockedStatus (orZero (lockedUntil lockoutData2))), w2)
                            else (Inr (unlockedStatus (int MAX_PIN_ATTEMPTS - int n)), w2))))))"

subsection \<open>Access controller\<close>

text \<open>
  The messages of the results, by template:
  \<^item> \<open>TooManyUntil t\<close>: \<^verbatim>\<open>Too many failed attempts. Try again after ${unlockTime?.toLocaleTimeString()}\<close>
  \<^item> \<open>NoPinSet\<close>: \<^verbatim>\<open>No PIN set\<close>
  \<^item> \<open>TooMany15Minutes\<close>: \<^verbatim>\<open>Too many failed attempts. Try again in 15 minutes.\<close>
  \<^item> \<open>IncorrectPin n\<close>: \<^verbatim>\<open>Incorrect PIN. ${n} attempts remaining.\<close>
  \<^item> \<open>SecretNotFoundMsg\<close>: \<^verbatim>\<open>Secret not found\<close>
\<close>

datatype message =
    TooManyUntil "nat option"
  | NoPinSet
  | TooMany15Minutes
  | IncorrectPin int
  | SecretNotFoundMsg

record pinResult = lockoutStatus +
  valid :: bool
  error :: "message option"

definition noPinSet :: "int \<Rightarrow> pinResult" where
  "noPinSet n =
     \<lparr>locked = False, attemptsLeft = n, unlockTime = None, valid = False, error = Some NoPinSet\<rparr>"

text \<open>
  Everything after the read of the PIN secret runs inside the \<^verbatim>\<open>try\<close> of
  \<^verbatim>\<open>verifyUserPin\<close>, so an exception of \<^verbatim>\<open>JSON.parse\<close>, \<^verbatim>\<open>hashPin\<close>,
  \<^verbatim>\<open>clearUserLockout\<close> or \<^verbatim>\<open>recordFailedAttempt\<close> goes through the same \<^verbatim>\<open>catch\<close> as
  one of the read: \<open>catchVerify\<close>. Destructuring \<^verbatim>\<open>null\<close> throws \<open>TypeError\<close>; a
  primitive value, an array or an object without a salt gives \<^verbatim>\<open>salt = undefined\<close>, on
  which \<^verbatim>\<open>crypto.pbkdf2Sync\<close> throws \<open>TypeError\<close>.
\<close>

definition catchVerify :: "jsError \<Rightarrow> world \<Rightarrow> pinResult outcome" where
  "catchVerify e w =
     (if isNotFound e then (Inr (noPinSet (int MAX_PIN_ATTEMPTS)), w) else (Inl e, w))"

definition verifyUserPin :: "world \<Rightarrow> jsString \<Rightarrow> string \<Rightarrow> pinResult outcome" where
  "verifyUserPin w userId pin =
     (case getLockoutStatus w userId of
        (Inl e, w1) \<Rightarrow> (Inl e, w1)
      | (Inr status, w1) \<Rightarrow>
          if locked status
          then (Inr \<lparr>locked = True, attemptsLeft = 0, unlockTime = unlockTime status,
                     valid = False, error = Some (TooManyUntil (unlockTime status))\<rparr>, w1)
          else
            (case getClient w1 of
               Inl e \<Rightarrow> (Inl e, w1)
             | Inr u \<Rightarrow>
                 (case client_getSecret w1 (getPinSecretName userId) of
                    (Inl e, w2) \<Rightarrow> catchVerify e w2
                  | (Inr v, w2) \<Rightarrow>
                      if \<not> truthyValue v then (Inr (noPinSet (attemptsLeft status)), w2)
                      else
                        (case JSON_parse w2 v of
                           None \<Rightarrow> catchVerify SyntaxError w2
                         | Some JsonNull \<Rightarrow> catchVerify TypeError w2
                         | Some JsonPrimitive \<Rightarrow> catchVerify TypeError w2
                         | Some (JsonArray txt) \<Rightarrow> catchVerify TypeError w2
                         | Some (JsonObject pinData) \<Rightarrow>
                             (case salt pinData of
                                None \<Rightarrow> catchVerify TypeError w2
                              | Some slt \<Rightarrow>
                                  (let inputHash = hashPin w2 pin slt;
                                       w3 = w2\<lparr>trace := HashPinCalled pin slt # trace w2\<rparr>
                                   in if Some inputHash = hash pinData
                                      then (case clearUserLockout w3 userId of
                                              (Inl e, w4) \<Rightarrow> catchVerify e w4
                                            | (Inr u2, w4) \<Rightarrow>
                                                (Inr \<lparr>locked = False,
                                                      attemptsLeft = int MAX_PIN_ATTEMPTS,
                                                      unlockTime = None,
                                                      valid = True, error = None\<rparr>, w4))
                                      else (case recordFailedAttempt w3 userId of
                                              (Inl e, w4) \<Rightarrow> catchVerify e w4
                                            | (Inr newStatus, w4) \<Rightarrow>
                                                (Inr \<lparr>locked = locked newStatus,
                                                      attemptsLeft = attemptsLeft newStatus,
                                                      unlockTime = unlockTime newStatus,
                                                      valid = False,
                                                      error =
                                                        Some (if locked newStatus
                                                              then TooMany15Minutes
                                                              else IncorrectPin
                                                                     (attemptsLeft newStatus))\<rparr>,
                                                 w4))))))))"

text \<open>
  The result of \<^verbatim>\<open>getSecretWithPin\<close>. \<open>None\<close> is a property the returned object does
  not have.
\<close>

record secretResult =
  success :: bool
  secret :: "secretValue option"
  errorMessage :: "message option"
  lockedField :: "bool option"
  attemptsLeftField :: "int option"

definition getSecretWithPin ::
  "world \<Rightarrow> jsString \<Rightarrow> string \<Rightarrow> SecretCategory \<Rightarrow> jsString \<Rightarrow> secretResult outcome" where
  "getSecretWithPin w userId pin category key =
     (case verifyUserPin w userId pin of
        (Inl e, w1) \<Rightarrow> (Inl e, w1)
      | (Inr pinRes, w1) \<Rightarrow>
          if \<not> valid pinRes
          then (Inr \<lparr>success = False, secret = None, errorMessage = error pinRes,
                     lockedField = Some (locked pinRes),
                     attemptsLeftField = Some (attemptsLeft pinRes)\<rparr>, w1)
          else
            (case getSecret w1 userId category key of
               (Inl e, w2) \<Rightarrow> (Inl e, w2)
             | (Inr None, w2) \<Rightarrow>
                 (Inr \<lparr>success = False, secret = None, errorMessage = Some SecretNotFoundMsg,
                       lockedField = None, attemptsLeftField = None\<rparr>, w2)
             | (Inr (Some v), w2) \<Rightarrow>
                 (Inr \<lparr>success = True, secret = Some v, errorMessage = None,
                       lockedField = None, attemptsLeftField = None\<rparr>, w2)))"

subsection \<open>States the properties speak about\<close>

text \<open>
  A healthy world: the vault URL is configured and no outage is scheduled, so every call
  of the client goes through.
\<close>

definition healthy :: "world \<Rightarrow> bool" where
  "healthy w = (getClient w = Inr () \<and> faults w = [])"

text \<open>
  The PIN record of a user: an object with a salt, stored by the module under the PIN
  name. \<open>correctPin\<close> holds of the PINs that hash to the stored hash under the stored
  salt, \<open>wrongPin\<close> of those that do not. Both are false when no PIN record is stored.
\<close>

definition pinRecord :: "world \<Rightarrow> jsString \<Rightarrow> (string option \<times> string) option" where
  "pinRecord w userId =
     (case secrets w (getPinSecretName userId) of
        None \<Rightarrow> None
      | Some (Text s) \<Rightarrow> None
      | Some (Json pinData) \<Rightarrow>
          (case salt pinData of
             None \<Rightarrow> None
           | Some slt \<Rightarrow> Some (hash pinData, slt)))"

definition correctPin :: "world \<Rightarrow> jsString \<Rightarrow> string \<Rightarrow> bool" where
  "correctPin w userId pin =
     (case pinRecord w userId of
        None \<Rightarrow> False
      | Some (h, slt) \<Rightarrow> h = Some (hashPin w pin slt))"

definition wrongPin :: "world \<Rightarrow> jsString \<Rightarrow> string \<Rightarrow> bool" where
  "wrongPin w userId pin =
     (case pinRecord w userId of
        None \<Rightarrow> False
      | Some (h, slt) \<Rightarrow> h \<noteq> Some (hashPin w pin slt))"

text \<open>
  The Clean state of the lockout tracker with \<open>n\<close> failed attempts on record: no
  lockout record or one with an empty value (then \<open>n\<close> is 0), or a record without a
  \<^verbatim>\<open>lockedUntil\<close> time whose counter is \<open>n\<close>.
\<close>

definition cleanWith :: "world \<Rightarrow> jsString \<Rightarrow> nat \<Rightarrow> bool" where
  "cleanWith w userId n =
     (case secrets w (getLockoutSecretName userId) of
        None \<Rightarrow> n = 0
      | Some (Text s) \<Rightarrow> s = [] \<and> n = 0
      | Some (Json lockoutData) \<Rightarrow>
          \<not> truthy (lockedUntil lockoutData) \<and> orZero (failedAttempts lockoutData) = n)"

text \<open>
  The gate of \<^verbatim>\<open>verifyUserPin\<close> is open when the status check succeeds and does not
  report a lockout.
\<close>

definition gateOpen :: "world \<Rightarrow> jsString \<Rightarrow> bool" where
  "gateOpen w userId =
     (case fst (getLockoutStatus w userId) of
        Inl e \<Rightarrow> False
      | Inr status \<Rightarrow> \<not> locked status)"

text \<open>
  The user is not locked out: the lockout secret is absent or empty, or it is a record
  that the module wrote and whose \<^verbatim>\<open>lockedUntil\<close> time is unset or not ahead of the
  clock.
\<close>

definition notLockedOut :: "world \<Rightarrow> jsString \<Rightarrow> bool" where
  "notLockedOut w userId =
     (case secrets w (getLockoutSecretName userId) of
        None \<Rightarrow> True
      | Some (Text s) \<Rightarrow> s = []
      | Some (Json lockoutData) \<Rightarrow>
          \<not> (truthy (lockedUntil lockoutData) \<and> now w < orZero (lockedUntil lockoutData)))"

text \<open>
  The world in which \<^verbatim>\<open>verifyUserPin\<close> reads the PIN record: the one its status check
  leaves.
\<close>

definition afterStatusCheck :: "world \<Rightarrow> jsString \<Rightarrow> world" where
  "afterStatusCheck w userId = snd (getLockoutStatus w userId)"

text \<open>The number of entries into \<^verbatim>\<open>getSecret\<close> so far.\<close>

fun isGetSecretCalled :: "event \<Rightarrow> bool" where
  "isGetSecretCalled (GetSecretCalled userId category key) = True"
| "isGetSecretCalled (HashPinCalled pin slt) = False"

definition getSecretCalls :: "world \<Rightarrow> nat" where
  "getSecretCalls w = length (filter isGetSecretCalled (trace w))"

subsection \<open>Observations of the lockout record\<close>

text \<open>The \<^verbatim>\<open>lockedUntil\<close> time of the stored lockout record, if there is one.\<close>

definition recordedLockedUntil :: "world \<Rightarrow> jsString \<Rightarrow> nat option" where
  "recordedLockedUntil w userId =
     (case secrets w (getLockoutSecretName userId) of
        None \<Rightarrow> None
      | Some (Text s) \<Rightarrow> None
      | Some (Json lockoutData) \<Rightarrow> lockedUntil lockoutData)"

text \<open>
  The attempt budget: the \<^verbatim>\<open>attemptsLeft\<close> that a status check in this world reports.
\<close>

definition budget :: "world \<Rightarrow> jsString \<Rightarrow> int" where
  "budget w userId =
     (case fst (getLockoutStatus w userId) of
        Inl e \<Rightarrow> 0
      | Inr status \<Rightarrow> attemptsLeft status)"

subsection \<open>Example worlds\<close>

text \<open>
  Stand-ins for the key derivation function and for \<^verbatim>\<open>JSON.parse\<close>, used only to run
  the model on examples. No text stored in the example worlds is JSON.
\<close>

definition exampleKdf :: "string \<Rightarrow> string \<Rightarrow> nat \<Rightarrow> nat \<Rightarrow> string \<Rightarrow> string" where
  "exampleKdf password slt iterations keylen digest = password @ slt"

definition exampleParse :: "string \<Rightarrow> jsonValue option" where
  "exampleParse s = None"

definition emptyWorld :: world where
  "emptyWorld =
     \<lparr>vaultUrl = Some ''https://familyhub.vault.azure.net'',
      secrets = (\<lambda>name. None),
      faults = [],
      now = 1000000,
      entropy = ''seed'',
      pbkdf2Sync = exampleKdf,
      jsonParse = exampleParse,
      trace = []\<rparr>"

definition exampleUser :: jsString where
  "exampleUser = codeUnits ''ann@example.com''"

text \<open>A user id of 119 characters, all of them the letter \<^verbatim>\<open>a\<close>.\<close>

definition longUser :: jsString where
  "longUser = replicate 119 97"

text \<open>A user id of 64 characters, all of them U+0130.\<close>

definition dottedUser :: jsString where
  "dottedUser = replicate 64 304"

definition examplePinRecord :: secretValue where
  "examplePinRecord =
     Json \<lparr>hash = Some (hashPin emptyWorld ''1234'' ''5eed''), salt = Some ''5eed'',
           failedAttempts = None, lockedUntil = None\<rparr>"

text \<open>The example user has the PIN 1234 and no lockout record.\<close>

definition pinWorld :: world where
  "pinWorld =
     emptyWorld\<lparr>secrets := (\<lambda>name. None)(getPinSecretName exampleUser := Some examplePinRecord)\<rparr>"

text \<open>
  The example user has the PIN 1234 and is locked out until 1900000, which is after
  the \<open>now\<close> of the world.
\<close>

definition lockedWorld :: world where
  "lockedWorld =
     pinWorld\<lparr>secrets := (secrets pinWorld)
        (getLockoutSecretName exampleUser :=
           Some (Json \<lparr>hash = None, salt = None,
                       failedAttempts = Some 3, lockedUntil = Some 1900000\<rparr>))\<rparr>"

text \<open>
  The example user has the PIN 1234 and two failed attempts on record, so one attempt
  is left.
\<close>

definition twoFailuresWorld :: world where
  "twoFailuresWorld =
     pinWorld\<lparr>secrets := (secrets pinWorld)
        (getLockoutSecretName exampleUser :=
           Some (Json \<lparr>hash = None, salt = None,
                       failedAttempts = Some 2, lockedUntil = None\<rparr>))\<rparr>"

text \<open>
  The same, with an outage ahead: the first two calls of the client go through, the
  third fails with HTTP 503.
\<close>

definition outageWorld :: world where
  "outageWorld =
     twoFailuresWorld\<lparr>faults := [None, None, Some (RestError ''ServiceUnavailable'' 503)]\<rparr>"

text \<open>The example user has no PIN record and is locked out until 1900000.\<close>

definition lockedNoPinWorld :: world where
  "lockedNoPinWorld =
     emptyWorld\<lparr>secrets := (\<lambda>name. None)
        (getLockoutSecretName exampleUser :=
           Some (Json \<lparr>hash = None, salt = None,
                       failedAttempts = Some 3, lockedUntil = Some 1900000\<rparr>))\<rparr>"

text \<open>
  The long user holds one secret, which is PIN record and lockout record at once (the
  two names coincide): the PIN 1234 and no failure on record.
\<close>

definition longPinWorld :: world where
  "longPinWorld =
     emptyWorld\<lparr>secrets := (\<lambda>name. None)(getPinSecretName longUser := Some examplePinRecord)\<rparr>"

text \<open>
  The same secret with three failures and a lockout that ended at 900000, before the
  \<open>now\<close> of the world.
\<close>

definition longExpiredWorld :: world where
  "longExpiredWorld =
     emptyWorld\<lparr>secrets := (\<lambda>name. None)
        (getPinSecretName longUser :=
           Some (Json \<lparr>hash = Some (hashPin emptyWorld ''1234'' ''5eed''), salt = Some ''5eed'',
                       failedAttempts = Some 3, lockedUntil = Some 900000\<rparr>))\<rparr>"

text \<open>
  An empty vault with an outage ahead: the first call of the client goes through, the
  second fails with HTTP 503.
\<close>

definition deleteOutageWorld :: world where
  "deleteOutageWorld =
     emptyWorld\<lparr>faults := [None, Some (RestError ''ServiceUnavailable'' 503)]\<rparr>"

section \<open>Properties\<close>

text \<open>
  The properties below are about a healthy world unless they say otherwise: what a store
  failure does is the subject of the subsection on reads that fail and of C4.
\<close>

subsection \<open>Healthy worlds and frame lemmas\<close>

lemma healthy_getClient: "healthy w \<Longrightarrow> getClient w = Inr ()"
  by (simp add: healthy_def)

lemma healthy_nextFault: "healthy w \<Longrightarrow> nextFault w = (None, w)"
  by (simp add: healthy_def nextFault_def)

lemma healthy_secrets_update [simp]: "healthy (w\<lparr>secrets := m\<rparr>) = healthy w"
  by (simp add: healthy_def getClient_def)

lemma healthy_trace_update [simp]: "healthy (w\<lparr>trace := m\<rparr>) = healthy w"
  by (simp add: healthy_def getClient_def)

lemma healthy_now_update [simp]: "healthy (w\<lparr>now := m\<rparr>) = healthy w"
  by (simp add: healthy_def getClient_def)

lemma healthy_entropy_update [simp]: "healthy (w\<lparr>entropy := m\<rparr>) = healthy w"
  by (simp add: healthy_def getClient_def)

lemma isNotFound_secretNotFound [simp]: "isNotFound secretNotFound"
  by (simp add: secretNotFound_def)

lemma getClient_update [simp]:
  "getClient (w\<lparr>faults := fs\<rparr>) = getClient w"
  "getClient (w\<lparr>trace := tr\<rparr>) = getClient w"
  "getClient (w\<lparr>secrets := m\<rparr>) = getClient w"
  by (simp_all add: getClient_def)

lemma hashPin_update [simp]:
  "hashPin (w\<lparr>secrets := m\<rparr>) pin slt = hashPin w pin slt"
  "hashPin (w\<lparr>trace := tr\<rparr>) pin slt = hashPin w pin slt"
  "hashPin (w\<lparr>now := t\<rparr>) pin slt = hashPin w pin slt"
  "hashPin (w\<lparr>faults := fs\<rparr>) pin slt = hashPin w pin slt"
  by (simp_all add: hashPin_def)

lemma JSON_parse_update [simp]:
  "JSON_parse (w\<lparr>secrets := m\<rparr>) v = JSON_parse w v"
  "JSON_parse (w\<lparr>trace := tr\<rparr>) v = JSON_parse w v"
  "JSON_parse (w\<lparr>now := t\<rparr>) v = JSON_parse w v"
  "JSON_parse (w\<lparr>faults := fs\<rparr>) v = JSON_parse w v"
  by (cases v; simp)+

lemma recordedLockedUntil_now [simp]:
  "recordedLockedUntil (w\<lparr>now := t\<rparr>) userId = recordedLockedUntil w userId"
  by (simp add: recordedLockedUntil_def)

lemma wrongPin_now [simp]: "wrongPin (w\<lparr>now := t\<rparr>) userId pin = wrongPin w userId pin"
  by (simp add: wrongPin_def pinRecord_def split: option.splits)

lemma correctPin_now [simp]: "correctPin (w\<lparr>now := t\<rparr>) userId pin = correctPin w userId pin"
  by (simp add: correctPin_def pinRecord_def split: option.splits)

lemma cleanWith_now [simp]: "cleanWith (w\<lparr>now := t\<rparr>) userId n = cleanWith w userId n"
  by (simp add: cleanWith_def)

lemma correctPin_other_secret:
  assumes "name \<noteq> getPinSecretName userId"
  shows "correctPin (w\<lparr>secrets := (secrets w)(name := x)\<rparr>) userId pin = correctPin w userId pin"
  using assms by (simp add: correctPin_def pinRecord_def split: option.splits)

lemma wrongPin_other_secret:
  assumes "name \<noteq> getPinSecretName userId"
  shows "wrongPin (w\<lparr>secrets := (secrets w)(name := x)\<rparr>) userId pin = wrongPin w userId pin"
  using assms by (simp add: wrongPin_def pinRecord_def split: option.splits)

lemma recordedLockedUntil_other_secret:
  assumes "name \<noteq> getLockoutSecretName userId"
  shows "recordedLockedUntil (w\<lparr>secrets := (secrets w)(name := x)\<rparr>) userId
         = recordedLockedUntil w userId"
  using assms by (simp add: recordedLockedUntil_def)

lemma cleanWith_other_secret:
  assumes "name \<noteq> getLockoutSecretName userId"
  shows "cleanWith (w\<lparr>secrets := (secrets w)(name := x)\<rparr>) userId n = cleanWith w userId n"
  using assms by (simp add: cleanWith_def)

lemma notLockedOut_other_secret:
  assumes "name \<noteq> getLockoutSecretName userId"
  shows "notLockedOut (w\<lparr>secrets := (secrets w)(name := x)\<rparr>) userId = notLockedOut w userId"
  using assms by (simp add: notLockedOut_def split: option.splits secretValue.splits)

subsection \<open>Secret names\<close>

lemma toLowerCase_append: "toLowerCase (s @ t) = toLowerCase s @ toLowerCase t"
  by (simp add: toLowerCase_def)

lemma toLowerCase_length: "length s \<le> length (toLowerCase s)"
proof (induction s)
  case Nil
  show ?case by (simp add: toLowerCase_def)
next
  case (Cons u s)
  have "toLowerCase (u # s) = lowerUnit u @ toLowerCase s" by (simp add: toLowerCase_def)
  moreover have "1 \<le> length (lowerUnit u)" by (simp add: lowerUnit_def)
  ultimately show ?case using Cons.IH by simp
qed

text \<open>What the sanitisation makes of the literal parts of the three templates.\<close>

lemma sanitize_pin_suffix:
  "map replaceUnit (toLowerCase (codeUnits ''-system-pin'')) = ''-system-pin''"
  by (simp add: codeUnits_def toLowerCase_def lowerUnit_def replaceUnit_def nameChars_def)

lemma sanitize_lockout_suffix:
  "map replaceUnit (toLowerCase (codeUnits ''-system-lockout'')) = ''-system-lockout''"
  by (simp add: codeUnits_def toLowerCase_def lowerUnit_def replaceUnit_def nameChars_def)

lemma sanitize_dash: "map replaceUnit (toLowerCase (codeUnits ''-'')) = ''-''"
  by (simp add: codeUnits_def toLowerCase_def lowerUnit_def replaceUnit_def nameChars_def)

lemma sanitize_category:
  "map replaceUnit (toLowerCase (codeUnits (categoryString category))) = categoryString category"
  by (cases category)
    (simp_all add: codeUnits_def toLowerCase_def lowerUnit_def replaceUnit_def nameChars_def)

lemma sanitizeName_append_eq:
  "sanitizeName (u @ s) = sanitizeName (u @ t) \<longleftrightarrow>
   take (127 - length (toLowerCase u)) (map replaceUnit (toLowerCase s))
     = take (127 - length (toLowerCase u)) (map replaceUnit (toLowerCase t))"
  by (simp add: sanitizeName_def toLowerCase_append)

lemma take_eq_shorter: "take k xs = take k ys \<Longrightarrow> j \<le> k \<Longrightarrow> take j xs = take j ys"
  by (metis min.absorb1 take_take)

lemma pin_lockout_names_eq_iff:
  "getPinSecretName userId = getLockoutSecretName userId \<longleftrightarrow>
   take (127 - length (toLowerCase userId)) ''-system-pin''
     = take (127 - length (toLowerCase userId)) ''-system-lockout''"
  unfolding getPinSecretName_def getLockoutSecretName_def sanitizeName_append_eq
    sanitize_pin_suffix sanitize_lockout_suffix ..

text \<open>
  The names of the PIN secret and of the lockout secret differ in their ninth character
  after the lower case of the user id. They differ when that lower case leaves room for
  nine characters below the limit of 127, and coincide when it does not: from 119 code
  units of the user id on, and earlier for a user id with U+0130 in it.
\<close>

lemma pin_lockout_names_distinct:
  assumes "length (toLowerCase userId) \<le> 118"
  shows "getPinSecretName userId \<noteq> getLockoutSecretName userId"
proof
  assume "getPinSecretName userId = getLockoutSecretName userId"
  then have "take (127 - length (toLowerCase userId)) ''-system-pin''
      = take (127 - length (toLowerCase userId)) ''-system-lockout''"
    unfolding pin_lockout_names_eq_iff .
  moreover have "9 \<le> 127 - length (toLowerCase userId)" using assms by simp
  ultimately have "take 9 ''-system-pin'' = take 9 ''-system-lockout''"
    by (rule take_eq_shorter)
  then show False by simp
qed

lemma pin_lockout_names_equal:
  assumes "119 \<le> length (toLowerCase userId)"
  shows "getPinSecretName userId = getLockoutSecretName userId"
proof -
  have "127 - length (toLowerCase userId) \<le> 8" using assms by simp
  moreover have "take 8 ''-system-pin'' = take 8 ''-system-lockout''" by simp
  ultimately have "take (127 - length (toLowerCase userId)) ''-system-pin''
      = take (127 - length (toLowerCase userId)) ''-system-lockout''"
    by (rule take_eq_shorter[rotated])
  then show ?thesis unfolding pin_lockout_names_eq_iff .
qed

lemma pin_lockout_names_equal_long:
  assumes "119 \<le> length userId"
  shows "getPinSecretName userId = getLockoutSecretName userId"
  using assms toLowerCase_length[of userId] by (intro pin_lockout_names_equal) simp

lemma toLowerCase_dotted: "length (toLowerCase (replicate n 304)) = 2 * n"
  by (induction n) (simp_all add: toLowerCase_def lowerUnit_def)

text \<open>
  The name of a secret of a user differs from the names of the PIN and lockout secrets
  of that user in the second character after the lower case of the user id.
\<close>

lemma secret_name_not_system:
  assumes "length (toLowerCase userId) \<le> 125"
  shows "getSecretName userId category key \<noteq> getPinSecretName userId"
    and "getSecretName userId category key \<noteq> getLockoutSecretName userId"
proof -
  let ?rest = "codeUnits ''-'' @ codeUnits (categoryString category) @ codeUnits ''-'' @ key"
  have k: "2 \<le> 127 - length (toLowerCase userId)" using assms by simp
  have c: "take 2 (map replaceUnit (toLowerCase ?rest)) \<noteq> ''-s''"
    by (cases category)
      (simp_all add: toLowerCase_append sanitize_dash codeUnits_def toLowerCase_def
        lowerUnit_def replaceUnit_def nameChars_def)
  have p: "take 2 ''-system-pin'' = ''-s''" and l: "take 2 ''-system-lockout'' = ''-s''"
    by simp_all
  show "getSecretName userId category key \<noteq> getPinSecretName userId"
  proof
    assume "getSecretName userId category key = getPinSecretName userId"
    then have "take (127 - length (toLowerCase userId)) (map replaceUnit (toLowerCase ?rest))
      = take (127 - length (toLowerCase userId)) ''-system-pin''"
      unfolding getPinSecretName_def getSecretName_def sanitizeName_append_eq
        sanitize_pin_suffix .
    from take_eq_shorter[OF this k] c show False unfolding p by (rule notE[rotated])
  qed
  show "getSecretName userId category key \<noteq> getLockoutSecretName userId"
  proof
    assume "getSecretName userId category key = getLockoutSecretName userId"
    then have "take (127 - length (toLowerCase userId)) (map replaceUnit (toLowerCase ?rest))
      = take (127 - length (toLowerCase userId)) ''-system-lockout''"
      unfolding getLockoutSecretName_def getSecretName_def sanitizeName_append_eq
        sanitize_lockout_suffix .
    from take_eq_shorter[OF this k] c show False unfolding l by (rule notE[rotated])
  qed
qed

text \<open>
  The name of a secret does not tell the case of the letters of its key: the keys
  \<^verbatim>\<open>SSN\<close> and \<^verbatim>\<open>ssn\<close> of one user and category are one secret.
\<close>

lemma key_case_collision:
  "getSecretName userId category (codeUnits ''SSN'')
     = getSecretName userId category (codeUnits ''ssn'')"
  by (simp add: getSecretName_def sanitizeName_def toLowerCase_append)
    (simp add: codeUnits_def toLowerCase_def lowerUnit_def)

subsection \<open>The store client and the adapter in a healthy world\<close>

lemma client_getSecret_healthy:
  "healthy w \<Longrightarrow> client_getSecret w name =
     (case secrets w name of None \<Rightarrow> (Inl secretNotFound, w) | Some v \<Rightarrow> (Inr v, w))"
  by (simp add: client_getSecret_def healthy_nextFault)

lemma client_setSecret_healthy:
  "healthy w \<Longrightarrow>
   client_setSecret w name v = (Inr (), w\<lparr>secrets := (secrets w)(name := Some v)\<rparr>)"
  by (simp add: client_setSecret_def healthy_nextFault)

lemma saveSecret_healthy:
  "healthy w \<Longrightarrow> saveSecret w userId category key v =
     (Inr (), w\<lparr>secrets := (secrets w)(getSecretName userId category key := Some (Text v))\<rparr>)"
  by (simp add: saveSecret_def healthy_getClient client_setSecret_healthy)

lemma getSecret_healthy:
  "healthy w \<Longrightarrow> getSecret w userId category key =
     (Inr (case secrets w (getSecretName userId category key) of
             None \<Rightarrow> None
           | Some v \<Rightarrow> if truthyValue v then Some v else None),
      w\<lparr>trace := GetSecretCalled userId (categoryString category) key # trace w\<rparr>)"
  by (simp add: getSecret_def Let_def healthy_getClient client_getSecret_healthy
      split: option.splits)

lemma hasUserPin_healthy:
  "healthy w \<Longrightarrow> hasUserPin w userId =
     (Inr (secrets w (getPinSecretName userId) \<noteq> None), w)"
  by (auto simp: hasUserPin_def healthy_getClient client_getSecret_healthy split: option.splits)

subsection \<open>The lockout tracker in a healthy world\<close>

lemma clearUserLockout_healthy:
  "healthy w \<Longrightarrow> clearUserLockout w userId =
     (Inr (), w\<lparr>secrets := (secrets w)(getLockoutSecretName userId := None)\<rparr>)"
  by (simp add: clearUserLockout_def client_beginDeleteSecret_def healthy_nextFault
      healthy_getClient fun_upd_idem split: option.splits)

lemma saveUserPin_healthy:
  assumes "healthy w" "pinFormat pin"
  shows "saveUserPin w userId pin =
     (Inr (), w\<lparr>trace := HashPinCalled pin (toHex (entropy w)) # trace w,
               secrets := ((secrets w)(getPinSecretName userId :=
                   Some (Json \<lparr>hash = Some (hashPin w pin (toHex (entropy w))),
                                salt = Some (toHex (entropy w)),
                                failedAttempts = None, lockedUntil = None\<rparr>)))
                 (getLockoutSecretName userId := None)\<rparr>)"
  using assms
  by (simp add: saveUserPin_def healthy_getClient client_setSecret_healthy
      clearUserLockout_healthy Let_def)

text \<open>The status check, by what the lockout secret holds.\<close>

lemma getLockoutStatus_healthy:
  assumes "healthy w"
  shows "getLockoutStatus w userId =
     (case secrets w (getLockoutSecretName userId) of
        None \<Rightarrow> (Inr (unlockedStatus 3), w)
      | Some v \<Rightarrow>
          if \<not> truthyValue v then (Inr (unlockedStatus 3), w)
          else
            (case JSON_parse w v of
               None \<Rightarrow> (Inl SyntaxError, w)
             | Some JsonNull \<Rightarrow> (Inl TypeError, w)
             | Some JsonPrimitive \<Rightarrow> (Inr (unlockedStatus 3), w)
             | Some (JsonArray txt) \<Rightarrow> (Inr (unlockedStatus 3), w)
             | Some (JsonObject obj) \<Rightarrow>
                 if truthy (lockedUntil obj) \<and> now w < orZero (lockedUntil obj)
                 then (Inr (lockedStatus (orZero (lockedUntil obj))), w)
                 else if truthy (lockedUntil obj)
                 then (Inr (unlockedStatus 3),
                       w\<lparr>secrets := (secrets w)(getLockoutSecretName userId := None)\<rparr>)
                 else (Inr (unlockedStatus (3 - int (orZero (failedAttempts obj)))), w)))"
  using assms
  by (simp add: getLockoutStatus_def client_getSecret_healthy healthy_getClient
      clearUserLockout_healthy MAX_PIN_ATTEMPTS_def
      split: option.splits jsonValue.splits)

lemma getLockoutStatus_record:
  assumes "healthy w" and "secrets w (getLockoutSecretName userId) = Some (Json obj)"
  shows "getLockoutStatus w userId =
     (if truthy (lockedUntil obj) \<and> now w < orZero (lockedUntil obj)
      then (Inr (lockedStatus (orZero (lockedUntil obj))), w)
      else if truthy (lockedUntil obj)
      then (Inr (unlockedStatus 3),
            w\<lparr>secrets := (secrets w)(getLockoutSecretName userId := None)\<rparr>)
      else (Inr (unlockedStatus (3 - int (orZero (failedAttempts obj)))), w))"
  using assms by (simp add: getLockoutStatus_healthy)

lemma getLockoutStatus_clean:
  assumes "healthy w" and "cleanWith w userId n"
  shows "getLockoutStatus w userId = (Inr (unlockedStatus (3 - int n)), w)"
  using assms by (auto simp: getLockoutStatus_healthy cleanWith_def
        split: option.splits secretValue.splits)

text \<open>
  The status check changes the world in one way only: it deletes the lockout secret, and
  then it reports the full budget.
\<close>

lemma getLockoutStatus_world:
  assumes "healthy w" and "getLockoutStatus w userId = (Inr status, w1)"
  shows "w1 = w
       \<or> (w1 = w\<lparr>secrets := (secrets w)(getLockoutSecretName userId := None)\<rparr>
          \<and> status = unlockedStatus 3)"
  using assms
  by (auto simp: getLockoutStatus_healthy
      split: option.splits jsonValue.splits if_splits)

lemma healthy_after_status:
  assumes "healthy w"
  shows "healthy (snd (getLockoutStatus w userId))"
  using assms
  by (simp add: getLockoutStatus_healthy split: option.splits jsonValue.splits)

text \<open>
  Recording a failure on a lockout secret that is absent, empty, or an object the module
  wrote.
\<close>

lemma recordFailedAttempt_healthy:
  assumes "healthy w"
    and "(case secrets w (getLockoutSecretName userId) of
            None \<Rightarrow> Some freshLockoutData
          | Some (Text s) \<Rightarrow> if s = [] then Some freshLockoutData else None
          | Some (Json stored) \<Rightarrow> Some stored) = Some obj"
  shows "recordFailedAttempt w userId =
     (let n = orZero (failedAttempts obj) + 1;
          obj2 = (if 3 \<le> n
                  then obj\<lparr>failedAttempts := Some n, lockedUntil := Some (now w + 900000)\<rparr>
                  else obj\<lparr>failedAttempts := Some n\<rparr>)
      in (Inr (if truthy (lockedUntil obj2) then lockedStatus (orZero (lockedUntil obj2))
               else unlockedStatus (3 - int n)),
          w\<lparr>secrets := (secrets w)(getLockoutSecretName userId := Some (Json obj2))\<rparr>))"
  using assms
  by (auto simp: recordFailedAttempt_def healthy_getClient client_getSecret_healthy
      client_setSecret_healthy MAX_PIN_ATTEMPTS_def LOCKOUT_DURATION_MS_def Let_def
      split: option.splits secretValue.splits if_splits)

lemma budget_clean:
  assumes "healthy w" and "cleanWith w userId n"
  shows "budget w userId = 3 - int n"
  using assms
  by (simp add: budget_def getLockoutStatus_clean unlockedStatus_def)

lemma budget_locked:
  assumes "healthy w" and "recordedLockedUntil w userId = Some t" and "now w < t"
  shows "budget w userId = 0"
  using assms
  by (auto simp: budget_def getLockoutStatus_healthy recordedLockedUntil_def lockedStatus_def
      split: option.splits secretValue.splits)

lemma budget_expired:
  assumes "healthy w" and "recordedLockedUntil w userId = Some t" and "0 < t" and "t \<le> now w"
  shows "budget w userId = 3"
  using assms
  by (auto simp: budget_def getLockoutStatus_healthy recordedLockedUntil_def unlockedStatus_def
      split: option.splits secretValue.splits)

lemma budget_after_clear:
  assumes "healthy w"
  shows "budget (w\<lparr>secrets := (secrets w)(getLockoutSecretName userId := None)\<rparr>) userId = 3"
  using assms budget_clean[of "w\<lparr>secrets := (secrets w)(getLockoutSecretName userId := None)\<rparr>" userId 0]
  by (simp add: cleanWith_def)

text \<open>
  A user who is not locked out is either in the Clean state or holds a lockout that has
  expired. In the first case the status check leaves the world as it is, in the second
  it deletes the lockout secret.
\<close>

lemma notLockedOut_cases:
  assumes "notLockedOut w userId"
  obtains (clean) n where "cleanWith w userId n"
  | (expired) t where "recordedLockedUntil w userId = Some t" "0 < t" "t \<le> now w"
proof (cases "secrets w (getLockoutSecretName userId)")
  case None
  then have "cleanWith w userId 0" by (simp add: cleanWith_def)
  then show ?thesis by (rule clean)
next
  case (Some v)
  show ?thesis
  proof (cases v)
    case (Text s)
    with Some assms have "cleanWith w userId 0"
      by (simp add: cleanWith_def notLockedOut_def)
    then show ?thesis by (rule clean)
  next
    case (Json obj)
    show ?thesis
    proof (cases "truthy (lockedUntil obj)")
      case False
      with Some Json have "cleanWith w userId (orZero (failedAttempts obj))"
        by (simp add: cleanWith_def)
      then show ?thesis by (rule clean)
    next
      case True
      then obtain t where t: "lockedUntil obj = Some t" "0 < t"
        by (cases "lockedUntil obj") auto
      with Some Json assms True have "t \<le> now w"
        by (simp add: notLockedOut_def)
      moreover have "recordedLockedUntil w userId = Some t"
        using Some Json t by (simp add: recordedLockedUntil_def)
      ultimately show ?thesis using t by (intro expired)
    qed
  qed
qed

lemma afterStatusCheck_clean:
  assumes "healthy w" and "cleanWith w userId n"
  shows "afterStatusCheck w userId = w"
  using assms by (simp add: afterStatusCheck_def getLockoutStatus_clean)

lemma gateOpen_notLockedOut:
  assumes "healthy w" and "notLockedOut w userId"
  shows "gateOpen w userId"
  using assms
  by (auto simp: gateOpen_def notLockedOut_def getLockoutStatus_healthy unlockedStatus_def
      split: option.splits secretValue.splits)

subsection \<open>Verification in a healthy world\<close>

lemma verifyUserPin_locked:
  assumes "healthy w" and "recordedLockedUntil w userId = Some t" and "now w < t"
  shows "verifyUserPin w userId pin =
     (Inr \<lparr>locked = True, attemptsLeft = 0, unlockTime = Some t, valid = False,
            error = Some (TooManyUntil (Some t))\<rparr>, w)"
  using assms
  by (auto simp: verifyUserPin_def getLockoutStatus_healthy lockedStatus_def
      recordedLockedUntil_def split: option.splits secretValue.splits)

lemma verifyUserPin_expired:
  assumes "healthy w" and "recordedLockedUntil w userId = Some t" and "0 < t" and "t \<le> now w"
  shows "getLockoutStatus w userId =
           (Inr (unlockedStatus 3), w\<lparr>secrets := (secrets w)(getLockoutSecretName userId := None)\<rparr>)"
    and "verifyUserPin w userId pin =
           verifyUserPin (w\<lparr>secrets := (secrets w)(getLockoutSecretName userId := None)\<rparr>) userId pin"
proof -
  show g: "getLockoutStatus w userId =
           (Inr (unlockedStatus 3), w\<lparr>secrets := (secrets w)(getLockoutSecretName userId := None)\<rparr>)"
    using assms
    by (auto simp: getLockoutStatus_healthy recordedLockedUntil_def
        split: option.splits secretValue.splits)
  have g': "getLockoutStatus (w\<lparr>secrets := (secrets w)(getLockoutSecretName userId := None)\<rparr>) userId =
           (Inr (unlockedStatus 3), w\<lparr>secrets := (secrets w)(getLockoutSecretName userId := None)\<rparr>)"
    using assms(1) by (simp add: getLockoutStatus_healthy)
  show "verifyUserPin w userId pin =
           verifyUserPin (w\<lparr>secrets := (secrets w)(getLockoutSecretName userId := None)\<rparr>) userId pin"
    by (simp add: verifyUserPin_def g g')
qed

lemma afterStatusCheck_expired:
  assumes "healthy w" and "recordedLockedUntil w userId = Some t" and "0 < t" and "t \<le> now w"
  shows "afterStatusCheck w userId
           = w\<lparr>secrets := (secrets w)(getLockoutSecretName userId := None)\<rparr>"
  using verifyUserPin_expired(1)[OF assms] by (simp add: afterStatusCheck_def)

lemma verifyUserPin_no_pin_clean:
  assumes "healthy w" and "secrets w (getPinSecretName userId) = None" and "cleanWith w userId n"
  shows "verifyUserPin w userId pin =
     (Inr \<lparr>locked = False, attemptsLeft = 3, unlockTime = None, valid = False,
            error = Some NoPinSet\<rparr>, w)"
  using assms(1,2)
  by (simp add: verifyUserPin_def getLockoutStatus_clean[OF assms(1,3)] unlockedStatus_def
      healthy_getClient client_getSecret_healthy catchVerify_def noPinSet_def
      MAX_PIN_ATTEMPTS_def)

text \<open>
  Without a PIN record, whatever the status check finds short of a lockout in force,
  the answer is "No PIN set" and the world is the one the status check leaves.
\<close>

lemma verifyUserPin_no_pin:
  assumes h: "healthy w" and np: "secrets w (getPinSecretName userId) = None"
    and g: "getLockoutStatus w userId = (Inr status, w1)" and nl: "\<not> locked status"
  shows "verifyUserPin w userId pin =
     (Inr \<lparr>locked = False, attemptsLeft = 3, unlockTime = None, valid = False,
            error = Some NoPinSet\<rparr>, w1)"
proof -
  have h1: "healthy w1" using healthy_after_status[OF h, of userId] g by simp
  have np1: "secrets w1 (getPinSecretName userId) = None"
    using getLockoutStatus_world[OF h g] np by auto
  show ?thesis
    using nl
    by (simp add: verifyUserPin_def g healthy_getClient[OF h1] client_getSecret_healthy[OF h1]
        np1 catchVerify_def noPinSet_def MAX_PIN_ATTEMPTS_def)
qed

text \<open>
  When the PIN name and the lockout name coincide, the status check that finds an
  expired lockout deletes the PIN with it.
\<close>

lemma verifyUserPin_expired_same_name:
  assumes "healthy w" and "recordedLockedUntil w userId = Some t" and "0 < t" and "t \<le> now w"
    and "getPinSecretName userId = getLockoutSecretName userId"
  shows "verifyUserPin w userId pin =
     (Inr \<lparr>locked = False, attemptsLeft = 3, unlockTime = None, valid = False,
            error = Some NoPinSet\<rparr>,
      w\<lparr>secrets := (secrets w)(getLockoutSecretName userId := None)\<rparr>)"
proof -
  let ?w1 = "w\<lparr>secrets := (secrets w)(getLockoutSecretName userId := None)\<rparr>"
  have h1: "healthy ?w1" using assms(1) by simp
  have np: "secrets ?w1 (getPinSecretName userId) = None" using assms(5) by simp
  have c1: "cleanWith ?w1 userId 0" by (simp add: cleanWith_def)
  show ?thesis
    using verifyUserPin_expired(2)[OF assms(1-4), of pin] verifyUserPin_no_pin_clean[OF h1 np c1]
    by simp
qed

text \<open>
  A wrong PIN in the Clean state with \<open>n\<close> failures on record: the result, and what the
  world after the call looks like.
\<close>

lemma verifyUserPin_wrong_clean:
  assumes h: "healthy w" and wp: "wrongPin w userId pin" and c: "cleanWith w userId n"
  obtains w' where
    "verifyUserPin w userId pin =
       (Inr (if 3 \<le> n + 1
             then \<lparr>locked = True, attemptsLeft = 0, unlockTime = Some (now w + 900000),
                   valid = False, error = Some TooMany15Minutes\<rparr>
             else \<lparr>locked = False, attemptsLeft = 3 - int (n + 1), unlockTime = None,
                   valid = False, error = Some (IncorrectPin (3 - int (n + 1)))\<rparr>), w')"
    and "healthy w'" and "now w' = now w"
    and "\<And>q. wrongPin w' userId q = wrongPin w userId q"
    and "n + 1 < 3 \<Longrightarrow> cleanWith w' userId (n + 1)"
    and "3 \<le> n + 1 \<Longrightarrow> recordedLockedUntil w' userId = Some (now w + 900000)"
    and "getSecretCalls w' = getSecretCalls w"
proof -
  from wp obtain pinData slt where
    p: "secrets w (getPinSecretName userId) = Some (Json pinData)"
    and s: "salt pinData = Some slt" and ne: "hash pinData \<noteq> Some (hashPin w pin slt)"
    by (auto simp: wrongPin_def pinRecord_def split: option.splits secretValue.splits)
  let ?L = "getLockoutSecretName userId"
  from c obtain obj where
    so: "(case secrets w ?L of
            None \<Rightarrow> Some freshLockoutData
          | Some (Text s) \<Rightarrow> if s = [] then Some freshLockoutData else None
          | Some (Json stored) \<Rightarrow> Some stored) = Some obj"
    and fa: "orZero (failedAttempts obj) = n" and lu: "\<not> truthy (lockedUntil obj)"
    by (auto simp: cleanWith_def freshLockoutData_def split: option.splits secretValue.splits)
  let ?obj2 = "(if 3 \<le> n + 1
                  then obj\<lparr>failedAttempts := Some (n + 1), lockedUntil := Some (now w + 900000)\<rparr>
                  else obj\<lparr>failedAttempts := Some (n + 1)\<rparr>)"
  let ?w3 = "w\<lparr>trace := HashPinCalled pin slt # trace w\<rparr>"
  let ?w' = "w\<lparr>trace := HashPinCalled pin slt # trace w,
               secrets := (secrets w)(?L := Some (Json ?obj2))\<rparr>"
  have h3: "healthy ?w3" using h by simp
  have so3: "(case secrets ?w3 ?L of
            None \<Rightarrow> Some freshLockoutData
          | Some (Text s) \<Rightarrow> if s = [] then Some freshLockoutData else None
          | Some (Json stored) \<Rightarrow> Some stored) = Some obj"
    using so by simp
  have gate: "getLockoutStatus w userId = (Inr (unlockedStatus (3 - int n)), w)"
    by (rule getLockoutStatus_clean[OF h c])
  have v: "verifyUserPin w userId pin =
       (Inr (if 3 \<le> n + 1
             then \<lparr>locked = True, attemptsLeft = 0, unlockTime = Some (now w + 900000),
                   valid = False, error = Some TooMany15Minutes\<rparr>
             else \<lparr>locked = False, attemptsLeft = 3 - int (n + 1), unlockTime = None,
                   valid = False, error = Some (IncorrectPin (3 - int (n + 1)))\<rparr>), ?w')"
    using h p s ne fa lu
    by (simp add: verifyUserPin_def gate unlockedStatus_def lockedStatus_def healthy_getClient
        client_getSecret_healthy recordFailedAttempt_healthy[OF h3 so3] Let_def)
  show ?thesis
  proof (rule that[of ?w'])
    show "verifyUserPin w userId pin =
       (Inr (if 3 \<le> n + 1
             then \<lparr>locked = True, attemptsLeft = 0, unlockTime = Some (now w + 900000),
                   valid = False, error = Some TooMany15Minutes\<rparr>
             else \<lparr>locked = False, attemptsLeft = 3 - int (n + 1), unlockTime = None,
                   valid = False, error = Some (IncorrectPin (3 - int (n + 1)))\<rparr>), ?w')"
      by (rule v)
    show "healthy ?w'" using h by simp
    show "now ?w' = now w" by simp
    show "wrongPin ?w' userId q = wrongPin w userId q" for q
      using p s so
      by (auto simp: wrongPin_def pinRecord_def split: option.splits secretValue.splits)
    show "cleanWith ?w' userId (n + 1)" if "n + 1 < 3"
      using that lu by (simp add: cleanWith_def)
    show "recordedLockedUntil ?w' userId = Some (now w + 900000)" if "3 \<le> n + 1"
      using that by (simp add: recordedLockedUntil_def)
    show "getSecretCalls ?w' = getSecretCalls w"
      by (simp add: getSecretCalls_def)
  qed
qed

lemma verifyUserPin_wrong_clean_fst:
  assumes "healthy w" and "wrongPin w userId pin" and "cleanWith w userId n"
  shows "fst (verifyUserPin w userId pin) =
       Inr (if 3 \<le> n + 1
             then \<lparr>locked = True, attemptsLeft = 0, unlockTime = Some (now w + 900000),
                   valid = False, error = Some TooMany15Minutes\<rparr>
             else \<lparr>locked = False, attemptsLeft = 3 - int (n + 1), unlockTime = None,
                   valid = False, error = Some (IncorrectPin (3 - int (n + 1)))\<rparr>)"
proof -
  from verifyUserPin_wrong_clean[OF assms] obtain w' where
    "verifyUserPin w userId pin =
       (Inr (if 3 \<le> n + 1
             then \<lparr>locked = True, attemptsLeft = 0, unlockTime = Some (now w + 900000),
                   valid = False, error = Some TooMany15Minutes\<rparr>
             else \<lparr>locked = False, attemptsLeft = 3 - int (n + 1), unlockTime = None,
                   valid = False, error = Some (IncorrectPin (3 - int (n + 1)))\<rparr>), w')"
    by blast
  then show ?thesis by simp
qed

lemma wrong_pin_result_budget:
  assumes h: "healthy w" and wp: "wrongPin w userId pin" and c: "cleanWith w userId n"
  shows "\<exists>pr w'. verifyUserPin w userId pin = (Inr pr, w')
       \<and> \<not> valid pr
       \<and> locked pr = (3 - int n \<le> 1)
       \<and> attemptsLeft pr = max 0 (3 - int n - 1)
       \<and> unlockTime pr = (if locked pr then Some (now w + LOCKOUT_DURATION_MS) else None)
       \<and> error pr = Some (if locked pr then TooMany15Minutes else IncorrectPin (attemptsLeft pr))
       \<and> budget w' userId = attemptsLeft pr
       \<and> getSecretCalls w' = getSecretCalls w"
proof -
  from verifyUserPin_wrong_clean[OF h wp c] obtain w' where
    v: "verifyUserPin w userId pin =
       (Inr (if 3 \<le> n + 1
             then \<lparr>locked = True, attemptsLeft = 0, unlockTime = Some (now w + 900000),
                   valid = False, error = Some TooMany15Minutes\<rparr>
             else \<lparr>locked = False, attemptsLeft = 3 - int (n + 1), unlockTime = None,
                   valid = False, error = Some (IncorrectPin (3 - int (n + 1)))\<rparr>), w')"
    and h': "healthy w'" and n': "now w' = now w"
    and c': "n + 1 < 3 \<Longrightarrow> cleanWith w' userId (n + 1)"
    and l': "3 \<le> n + 1 \<Longrightarrow> recordedLockedUntil w' userId = Some (now w + 900000)"
    and g': "getSecretCalls w' = getSecretCalls w"
    by blast
  show ?thesis
  proof (cases "3 \<le> n + 1")
    case True
    have "budget w' userId = 0"
      using budget_locked[OF h' l'[OF True]] n' by simp
    with True v g' show ?thesis by (simp add: LOCKOUT_DURATION_MS_def)
  next
    case False
    then have "budget w' userId = 3 - int (n + 1)"
      using budget_clean[OF h' c'] by simp
    with False v g' show ?thesis by simp
  qed
qed

text \<open>
  A wrong PIN for a user who is not locked out, where wrong is said of the PIN record
  that the status check leaves: the call answers as a wrong PIN and takes one attempt
  from the budget.
\<close>

lemma verifyUserPin_wrong:
  assumes h: "healthy w" and g: "notLockedOut w userId"
    and wp: "wrongPin (afterStatusCheck w userId) userId pin"
  shows "\<exists>pr w'. verifyUserPin w userId pin = (Inr pr, w')
       \<and> \<not> valid pr
       \<and> locked pr = (budget w userId \<le> 1)
       \<and> attemptsLeft pr = max 0 (budget w userId - 1)
       \<and> unlockTime pr = (if locked pr then Some (now w + LOCKOUT_DURATION_MS) else None)
       \<and> error pr = Some (if locked pr then TooMany15Minutes else IncorrectPin (attemptsLeft pr))
       \<and> budget w' userId = attemptsLeft pr
       \<and> getSecretCalls w' = getSecretCalls w"
  using g
proof (cases rule: notLockedOut_cases)
  case (clean n)
  have wp0: "wrongPin w userId pin" using wp afterStatusCheck_clean[OF h clean] by simp
  show ?thesis
    using wrong_pin_result_budget[OF h wp0 clean] budget_clean[OF h clean] by simp
next
  case (expired t)
  let ?w1 = "w\<lparr>secrets := (secrets w)(getLockoutSecretName userId := None)\<rparr>"
  have h1: "healthy ?w1" using h by simp
  have wp1: "wrongPin ?w1 userId pin" using wp afterStatusCheck_expired[OF h expired] by simp
  have c1: "cleanWith ?w1 userId 0" by (simp add: cleanWith_def)
  have gs: "getSecretCalls ?w1 = getSecretCalls w" by (simp add: getSecretCalls_def)
  have b: "budget w userId = 3" by (rule budget_expired[OF h expired])
  from wrong_pin_result_budget[OF h1 wp1 c1] obtain pr w' where
    "verifyUserPin ?w1 userId pin = (Inr pr, w')" and "\<not> valid pr"
    and "locked pr = (3 - int 0 \<le> 1)" and "attemptsLeft pr = max 0 (3 - int 0 - 1)"
    and "unlockTime pr = (if locked pr then Some (now ?w1 + LOCKOUT_DURATION_MS) else None)"
    and "error pr = Some (if locked pr then TooMany15Minutes else IncorrectPin (attemptsLeft pr))"
    and "budget w' userId = attemptsLeft pr" and "getSecretCalls w' = getSecretCalls ?w1"
    by blast
  then have "verifyUserPin w userId pin = (Inr pr, w')
       \<and> \<not> valid pr
       \<and> locked pr = (budget w userId \<le> 1)
       \<and> attemptsLeft pr = max 0 (budget w userId - 1)
       \<and> unlockTime pr = (if locked pr then Some (now w + LOCKOUT_DURATION_MS) else None)
       \<and> error pr = Some (if locked pr then TooMany15Minutes else IncorrectPin (attemptsLeft pr))
       \<and> budget w' userId = attemptsLeft pr
       \<and> getSecretCalls w' = getSecretCalls w"
    using verifyUserPin_expired(2)[OF h expired, of pin] gs b by simp
  then show ?thesis by blast
qed

text \<open>A correct PIN, in the Clean state and for a user who is not locked out.\<close>

lemma verifyUserPin_correct_clean:
  assumes h: "healthy w" and cp: "correctPin w userId pin" and c: "cleanWith w userId n"
  obtains slt where
    "verifyUserPin w userId pin =
       (Inr \<lparr>locked = False, attemptsLeft = 3, unlockTime = None, valid = True, error = None\<rparr>,
        w\<lparr>trace := HashPinCalled pin slt # trace w,
          secrets := (secrets w)(getLockoutSecretName userId := None)\<rparr>)"
proof -
  from cp obtain pinData slt where
    p: "secrets w (getPinSecretName userId) = Some (Json pinData)"
    and s: "salt pinData = Some slt" and eq: "hash pinData = Some (hashPin w pin slt)"
    by (auto simp: correctPin_def pinRecord_def split: option.splits secretValue.splits)
  have gate: "getLockoutStatus w userId = (Inr (unlockedStatus (3 - int n)), w)"
    by (rule getLockoutStatus_clean[OF h c])
  have "verifyUserPin w userId pin =
       (Inr \<lparr>locked = False, attemptsLeft = 3, unlockTime = None, valid = True, error = None\<rparr>,
        w\<lparr>trace := HashPinCalled pin slt # trace w,
          secrets := (secrets w)(getLockoutSecretName userId := None)\<rparr>)"
    using h p s eq
    by (simp add: verifyUserPin_def gate unlockedStatus_def healthy_getClient
        client_getSecret_healthy clearUserLockout_healthy Let_def MAX_PIN_ATTEMPTS_def)
  then show ?thesis by (rule that)
qed

lemma verifyUserPin_correct_clean_fst:
  assumes "healthy w" and "correctPin w userId pin" and "cleanWith w userId n"
  shows "fst (verifyUserPin w userId pin) =
     Inr \<lparr>locked = False, attemptsLeft = 3, unlockTime = None, valid = True, error = None\<rparr>"
  using verifyUserPin_correct_clean[OF assms] by (metis fst_conv)

lemma verifyUserPin_correct:
  assumes h: "healthy w" and g: "notLockedOut w userId"
    and cp: "correctPin (afterStatusCheck w userId) userId pin"
  obtains slt where
    "verifyUserPin w userId pin =
       (Inr \<lparr>locked = False, attemptsLeft = 3, unlockTime = None, valid = True, error = None\<rparr>,
        w\<lparr>trace := HashPinCalled pin slt # trace w,
          secrets := (secrets w)(getLockoutSecretName userId := None)\<rparr>)"
  using g
proof (cases rule: notLockedOut_cases)
  case (clean n)
  have cp0: "correctPin w userId pin" using cp afterStatusCheck_clean[OF h clean] by simp
  from verifyUserPin_correct_clean[OF h cp0 clean] show ?thesis using that by blast
next
  case (expired t)
  let ?w1 = "w\<lparr>secrets := (secrets w)(getLockoutSecretName userId := None)\<rparr>"
  have h1: "healthy ?w1" using h by simp
  have cp1: "correctPin ?w1 userId pin" using cp afterStatusCheck_expired[OF h expired] by simp
  have c1: "cleanWith ?w1 userId 0" by (simp add: cleanWith_def)
  from verifyUserPin_correct_clean[OF h1 cp1 c1] obtain slt where
    "verifyUserPin ?w1 userId pin =
       (Inr \<lparr>locked = False, attemptsLeft = 3, unlockTime = None, valid = True, error = None\<rparr>,
        ?w1\<lparr>trace := HashPinCalled pin slt # trace ?w1,
          secrets := (secrets ?w1)(getLockoutSecretName userId := None)\<rparr>)" .
  then have "verifyUserPin w userId pin =
       (Inr \<lparr>locked = False, attemptsLeft = 3, unlockTime = None, valid = True, error = None\<rparr>,
        w\<lparr>trace := HashPinCalled pin slt # trace w,
          secrets := (secrets w)(getLockoutSecretName userId := None)\<rparr>)"
    using verifyUserPin_expired(2)[OF h expired] by simp
  then show ?thesis by (rule that)
qed

text \<open>
  Once a lockout has expired, and provided the PIN secret and the lockout secret have
  different names, the supplied PIN is compared with the stored hash: the correct PIN
  is accepted, a wrong one is the first failure of a fresh budget.
\<close>

lemma verifyUserPin_after_expiry:
  assumes h: "healthy w" and l: "recordedLockedUntil w userId = Some t" "0 < t" "t \<le> now w"
    and d: "getPinSecretName userId \<noteq> getLockoutSecretName userId"
  shows "correctPin w userId pin \<Longrightarrow>
           fst (verifyUserPin w userId pin) =
             Inr \<lparr>locked = False, attemptsLeft = 3, unlockTime = None, valid = True,
                    error = None\<rparr>"
    and "wrongPin w userId pin \<Longrightarrow>
           fst (verifyUserPin w userId pin) =
             Inr \<lparr>locked = False, attemptsLeft = 2, unlockTime = None, valid = False,
                    error = Some (IncorrectPin 2)\<rparr>"
proof -
  let ?w1 = "w\<lparr>secrets := (secrets w)(getLockoutSecretName userId := None)\<rparr>"
  have h1: "healthy ?w1" using h by simp
  have c1: "cleanWith ?w1 userId 0" by (simp add: cleanWith_def)
  have d': "getLockoutSecretName userId \<noteq> getPinSecretName userId" using d by simp
  show "fst (verifyUserPin w userId pin) =
             Inr \<lparr>locked = False, attemptsLeft = 3, unlockTime = None, valid = True,
                    error = None\<rparr>" if "correctPin w userId pin"
  proof -
    have "correctPin ?w1 userId pin" using that d' by (simp add: correctPin_other_secret)
    from verifyUserPin_correct_clean_fst[OF h1 this c1] show ?thesis
      using verifyUserPin_expired(2)[OF h l, of pin] by simp
  qed
  show "fst (verifyUserPin w userId pin) =
             Inr \<lparr>locked = False, attemptsLeft = 2, unlockTime = None, valid = False,
                    error = Some (IncorrectPin 2)\<rparr>" if "wrongPin w userId pin"
  proof -
    have "wrongPin ?w1 userId pin" using that d' by (simp add: wrongPin_other_secret)
    from verifyUserPin_wrong_clean_fst[OF h1 this c1] show ?thesis
      using verifyUserPin_expired(2)[OF h l, of pin] by simp
  qed
qed

text \<open>
  \<^verbatim>\<open>verifyUserPin\<close> answers \<^verbatim>\<open>valid = true\<close> on one path only, after
  \<^verbatim>\<open>clearUserLockout\<close>.
\<close>

lemma valid_only_after_clear:
  assumes h: "healthy w" and v: "verifyUserPin w userId pin = (Inr r, w')" and "valid r"
  shows "secrets w' (getLockoutSecretName userId) = None \<and> healthy w'"
proof -
  obtain st w1 where g: "getLockoutStatus w userId = (st, w1)" by (cases "getLockoutStatus w userId")
  have h1: "healthy w1" using healthy_after_status[OF h, of userId] g by simp
  obtain pv w2 where p: "client_getSecret w1 (getPinSecretName userId) = (pv, w2)"
    by (cases "client_getSecret w1 (getPinSecretName userId)")
  have w2: "w2 = w1" using p h1 by (auto simp: client_getSecret_healthy split: option.splits)
  show ?thesis
    using v \<open>valid r\<close> h1 p w2
    by (auto simp: verifyUserPin_def g healthy_getClient
        clearUserLockout_healthy catchVerify_def noPinSet_def Let_def
        split: sum.splits if_splits option.splits jsonValue.splits prod.splits)
qed

text \<open>
  Setting a PIN and verifying it. When the PIN secret and the lockout secret have
  different names the verification succeeds. When they have the same name, the
  \<^verbatim>\<open>clearUserLockout\<close> that ends \<^verbatim>\<open>saveUserPin\<close> deletes the PIN record just written,
  and the verification answers "No PIN set".
\<close>

lemma set_then_verify_distinct_names:
  assumes "healthy w" and "pinFormat pin"
    and "getPinSecretName userId \<noteq> getLockoutSecretName userId"
  shows "fst (saveUserPin w userId pin) = Inr ()
       \<and> fst (verifyUserPin ((snd (saveUserPin w userId pin))\<lparr>now := t\<rparr>) userId pin)
           = Inr \<lparr>locked = False, attemptsLeft = 3, unlockTime = None,
                  valid = True, error = None\<rparr>"
  using assms
  by (simp add: saveUserPin_healthy verifyUserPin_def getLockoutStatus_healthy
      healthy_getClient client_getSecret_healthy clearUserLockout_healthy
      unlockedStatus_def MAX_PIN_ATTEMPTS_def Let_def)

lemma set_then_verify_same_name:
  assumes "healthy w" and "pinFormat pin"
    and "getPinSecretName userId = getLockoutSecretName userId"
  shows "fst (saveUserPin w userId pin) = Inr ()
       \<and> secrets (snd (saveUserPin w userId pin)) (getPinSecretName userId) = None
       \<and> fst (verifyUserPin ((snd (saveUserPin w userId pin))\<lparr>now := t\<rparr>) userId pin)
           = Inr \<lparr>locked = False, attemptsLeft = 3, unlockTime = None,
                  valid = False, error = Some NoPinSet\<rparr>"
  using assms
  by (simp add: saveUserPin_healthy verifyUserPin_def getLockoutStatus_healthy
      healthy_getClient client_getSecret_healthy clearUserLockout_healthy
      unlockedStatus_def MAX_PIN_ATTEMPTS_def Let_def catchVerify_def noPinSet_def)

subsection \<open>The PIN-gated read in a healthy world\<close>

lemma getSecretWithPin_invalid:
  assumes "verifyUserPin w userId pin = (Inr pr, w')" and "\<not> valid pr"
  shows "getSecretWithPin w userId pin category key =
     (Inr \<lparr>success = False, secret = None, errorMessage = error pr,
            lockedField = Some (locked pr), attemptsLeftField = Some (attemptsLeft pr)\<rparr>, w')"
  using assms by (simp add: getSecretWithPin_def)

text \<open>
  With the correct PIN the read returns what is stored under the name of the secret
  once the lockout secret is deleted.
\<close>

lemma getSecretWithPin_correct:
  assumes h: "healthy w" and g: "notLockedOut w userId"
    and cp: "correctPin (afterStatusCheck w userId) userId pin"
  shows "fst (getSecretWithPin w userId pin category key) =
     Inr (case ((secrets w)(getLockoutSecretName userId := None))
                 (getSecretName userId category key) of
            None \<Rightarrow> \<lparr>success = False, secret = None, errorMessage = Some SecretNotFoundMsg,
                      lockedField = None, attemptsLeftField = None\<rparr>
          | Some v \<Rightarrow>
              if truthyValue v
              then \<lparr>success = True, secret = Some v, errorMessage = None,
                    lockedField = None, attemptsLeftField = None\<rparr>
              else \<lparr>success = False, secret = None, errorMessage = Some SecretNotFoundMsg,
                    lockedField = None, attemptsLeftField = None\<rparr>)"
proof -
  from verifyUserPin_correct[OF h g cp] obtain slt where
    v: "verifyUserPin w userId pin =
       (Inr \<lparr>locked = False, attemptsLeft = 3, unlockTime = None, valid = True, error = None\<rparr>,
        w\<lparr>trace := HashPinCalled pin slt # trace w,
          secrets := (secrets w)(getLockoutSecretName userId := None)\<rparr>)" .
  show ?thesis
    using h
    by (simp add: getSecretWithPin_def v getSecret_healthy split: option.splits)
qed

text \<open>
  A secret value that \<^verbatim>\<open>saveSecret\<close> wrote is not stored under the lockout name of a
  user who is not locked out, unless it is empty.
\<close>

lemma saved_value_not_lockout:
  assumes "notLockedOut w userId" and "secrets w name = Some (Text v)" and "v \<noteq> []"
  shows "name \<noteq> getLockoutSecretName userId"
  using assms by (auto simp: notLockedOut_def)

subsection \<open>Reads that fail\<close>

lemma client_getSecret_fault:
  "faults w = Some e # fs \<Longrightarrow> client_getSecret w name = (Inl e, w\<lparr>faults := fs\<rparr>)"
  by (simp add: client_getSecret_def nextFault_def)

lemma client_getSecret_through:
  "faults w = None # fs \<Longrightarrow> client_getSecret w name =
     (case secrets w name of
        None \<Rightarrow> (Inl secretNotFound, w\<lparr>faults := fs\<rparr>)
      | Some v \<Rightarrow> (Inr v, w\<lparr>faults := fs\<rparr>))"
  by (simp add: client_getSecret_def nextFault_def)

text \<open>
  Four reads tell a missing secret from a failure: \<^verbatim>\<open>getSecret\<close>, \<^verbatim>\<open>hasUserPin\<close>,
  \<^verbatim>\<open>getLockoutStatus\<close> and the PIN read of \<^verbatim>\<open>verifyUserPin\<close> throw on whatever is not a
  404.
\<close>

lemma read_failures_propagate:
  assumes "getClient w = Inr ()" and "faults w = Some e # fs" and "\<not> isNotFound e"
  shows "fst (getSecret w userId category key) = Inl e"
    and "fst (hasUserPin w userId) = Inl e"
    and "fst (getLockoutStatus w userId) = Inl e"
    and "fst (verifyUserPin w userId pin) = Inl e"
  using assms
  by (simp_all add: getSecret_def hasUserPin_def getLockoutStatus_def verifyUserPin_def
      client_getSecret_fault Let_def)

lemma pin_read_failure_propagates:
  assumes "healthy (w\<lparr>faults := []\<rparr>)" and "cleanWith w userId n"
    and "faults w = None # Some e # fs" and "\<not> isNotFound e"
  shows "fst (verifyUserPin w userId pin) = Inl e"
proof -
  have gc: "getClient w = Inr ()" using assms(1) by (simp add: healthy_def)
  have "getLockoutStatus w userId = (Inr (unlockedStatus (3 - int n)), w\<lparr>faults := Some e # fs\<rparr>)"
    using assms(2,3) gc
    by (auto simp: getLockoutStatus_def client_getSecret_through cleanWith_def
        MAX_PIN_ATTEMPTS_def split: option.splits secretValue.splits)
  then show ?thesis
    using gc assms(4)
    by (simp add: verifyUserPin_def unlockedStatus_def client_getSecret_fault catchVerify_def)
qed

text \<open>
  The read of \<^verbatim>\<open>recordFailedAttempt\<close> sits in a \<^verbatim>\<open>try\<close> whose \<^verbatim>\<open>catch\<close> is empty, so
  any failure of the read restarts the counter at 1, whatever was stored.
\<close>

lemma recordFailedAttempt_read_failure:
  assumes "getClient w = Inr ()" and "faults w = [Some e]"
  shows "recordFailedAttempt w userId =
     (Inr \<lparr>locked = False, attemptsLeft = 2, unlockTime = None\<rparr>,
      w\<lparr>faults := [],
        secrets := (secrets w)(getLockoutSecretName userId :=
          Some (Json \<lparr>hash = None, salt = None, failedAttempts = Some 1,
                       lockedUntil = None\<rparr>))\<rparr>)"
  using assms
  by (simp add: recordFailedAttempt_def client_getSecret_fault client_setSecret_def
      nextFault_def freshLockoutData_def MAX_PIN_ATTEMPTS_def unlockedStatus_def)

subsection \<open>Facts about the example worlds\<close>

lemma healthy_emptyWorld: "healthy emptyWorld"
  by (simp add: healthy_def emptyWorld_def getClient_def)

lemma healthy_pinWorld: "healthy pinWorld"
  by (simp add: pinWorld_def healthy_emptyWorld)

lemma healthy_lockedWorld: "healthy lockedWorld"
  by (simp add: lockedWorld_def healthy_pinWorld)

lemma healthy_twoFailuresWorld: "healthy twoFailuresWorld"
  by (simp add: twoFailuresWorld_def healthy_pinWorld)

lemma healthy_lockedNoPinWorld: "healthy lockedNoPinWorld"
  by (simp add: lockedNoPinWorld_def healthy_emptyWorld)

lemma healthy_longExpiredWorld: "healthy longExpiredWorld"
  by (simp add: longExpiredWorld_def healthy_emptyWorld)

lemma getClient_twoFailuresWorld: "getClient twoFailuresWorld = Inr ()"
  using healthy_twoFailuresWorld by (simp add: healthy_def)

lemma exampleUser_short: "length (toLowerCase exampleUser) \<le> 118"
  by (simp add: exampleUser_def codeUnits_def toLowerCase_def lowerUnit_def)

lemma longUser_length: "119 \<le> length longUser"
  by (simp add: longUser_def)

lemma dottedUser_length: "length dottedUser = 64 \<and> 119 \<le> length (toLowerCase dottedUser)"
  by (simp add: dottedUser_def toLowerCase_dotted)

lemma example_names_distinct [simp]:
  "getPinSecretName exampleUser \<noteq> getLockoutSecretName exampleUser"
  "getLockoutSecretName exampleUser \<noteq> getPinSecretName exampleUser"
  using pin_lockout_names_distinct[OF exampleUser_short] by auto

lemma long_names [simp]: "getLockoutSecretName longUser = getPinSecretName longUser"
  using pin_lockout_names_equal_long[OF longUser_length] by simp

lemma dotted_names: "getPinSecretName dottedUser = getLockoutSecretName dottedUser"
  using dottedUser_length by (intro pin_lockout_names_equal) simp

lemma pinFormat_1234: "pinFormat ''1234''"
  by (simp add: pinFormat_def isDigit_def)

lemma hashPin_example [simp]:
  "hashPin pinWorld = hashPin emptyWorld"
  "hashPin lockedWorld = hashPin emptyWorld"
  "hashPin twoFailuresWorld = hashPin emptyWorld"
  by (simp_all add: fun_eq_iff hashPin_def pinWorld_def lockedWorld_def twoFailuresWorld_def)

lemma cleanWith_emptyWorld: "cleanWith emptyWorld exampleUser 0"
  by (simp add: cleanWith_def emptyWorld_def)

lemma cleanWith_pinWorld: "cleanWith pinWorld exampleUser 0"
  by (simp add: cleanWith_def pinWorld_def emptyWorld_def)

lemma cleanWith_twoFailuresWorld: "cleanWith twoFailuresWorld exampleUser 2"
  by (simp add: cleanWith_def twoFailuresWorld_def)

lemma notLockedOut_pinWorld: "notLockedOut pinWorld exampleUser"
  by (simp add: notLockedOut_def pinWorld_def emptyWorld_def)

lemma afterStatusCheck_pinWorld: "afterStatusCheck pinWorld exampleUser = pinWorld"
  by (rule afterStatusCheck_clean[OF healthy_pinWorld cleanWith_pinWorld])

lemma absent_secret_pinWorld:
  "secrets pinWorld (getSecretName exampleUser Identity (codeUnits ''passport'')) = None"
  using secret_name_not_system(1)[of exampleUser Identity "codeUnits ''passport''"]
    exampleUser_short
  by (simp add: pinWorld_def emptyWorld_def)

lemma correctPin_pinWorld: "correctPin pinWorld exampleUser ''1234''"
  by (simp add: correctPin_def pinRecord_def pinWorld_def examplePinRecord_def)

lemma correctPin_lockedWorld: "correctPin lockedWorld exampleUser ''1234''"
  by (simp add: correctPin_def pinRecord_def lockedWorld_def pinWorld_def examplePinRecord_def)

lemma correctPin_twoFailuresWorld: "correctPin twoFailuresWorld exampleUser ''1234''"
  by (simp add: correctPin_def pinRecord_def twoFailuresWorld_def pinWorld_def examplePinRecord_def)

lemma correctPin_longExpiredWorld: "correctPin longExpiredWorld longUser ''1234''"
  by (simp add: correctPin_def pinRecord_def longExpiredWorld_def hashPin_def)

lemma wrongPin_pinWorld_0000: "wrongPin pinWorld exampleUser ''0000''"
  by (simp add: wrongPin_def pinRecord_def pinWorld_def emptyWorld_def examplePinRecord_def
      hashPin_def exampleKdf_def toHex_def hexDigit_def)

lemma wrongPin_pinWorld_12ab: "wrongPin pinWorld exampleUser ''12ab''"
  by (simp add: wrongPin_def pinRecord_def pinWorld_def emptyWorld_def examplePinRecord_def
      hashPin_def exampleKdf_def toHex_def hexDigit_def)

lemma wrongPin_lockedWorld_0000: "wrongPin lockedWorld exampleUser ''0000''"
  by (simp add: wrongPin_def pinRecord_def lockedWorld_def pinWorld_def emptyWorld_def
      examplePinRecord_def hashPin_def exampleKdf_def toHex_def hexDigit_def)

lemma wrongPin_lockedWorld_12ab: "wrongPin lockedWorld exampleUser ''12ab''"
  by (simp add: wrongPin_def pinRecord_def lockedWorld_def pinWorld_def emptyWorld_def
      examplePinRecord_def hashPin_def exampleKdf_def toHex_def hexDigit_def)

lemma wrongPin_twoFailuresWorld_0000: "wrongPin twoFailuresWorld exampleUser ''0000''"
  by (simp add: wrongPin_def pinRecord_def twoFailuresWorld_def pinWorld_def emptyWorld_def
      examplePinRecord_def hashPin_def exampleKdf_def toHex_def hexDigit_def)

lemma now_lockedWorld: "now lockedWorld < 1900000"
  by (simp add: lockedWorld_def pinWorld_def emptyWorld_def)

lemma now_longExpiredWorld: "900000 \<le> now longExpiredWorld"
  by (simp add: longExpiredWorld_def emptyWorld_def)

lemma recordedLockedUntil_lockedWorld: "recordedLockedUntil lockedWorld exampleUser = Some 1900000"
  by (simp add: recordedLockedUntil_def lockedWorld_def)

lemma recordedLockedUntil_lockedNoPinWorld:
  "recordedLockedUntil lockedNoPinWorld exampleUser = Some 1900000"
  by (simp add: recordedLockedUntil_def lockedNoPinWorld_def)

lemma recordedLockedUntil_longExpiredWorld:
  "recordedLockedUntil longExpiredWorld longUser = Some 900000"
  by (simp add: recordedLockedUntil_def longExpiredWorld_def)


lemma healthy_longPinWorld: "healthy longPinWorld"
  by (simp add: longPinWorld_def healthy_emptyWorld)

lemma cleanWith_longPinWorld: "cleanWith longPinWorld longUser 0"
  by (simp add: cleanWith_def longPinWorld_def examplePinRecord_def)

lemma notLockedOut_longPinWorld: "notLockedOut longPinWorld longUser"
  by (simp add: notLockedOut_def longPinWorld_def examplePinRecord_def)

lemma wrongPin_longPinWorld: "wrongPin longPinWorld longUser ''0000''"
  by (simp add: wrongPin_def pinRecord_def longPinWorld_def emptyWorld_def examplePinRecord_def
      hashPin_def exampleKdf_def toHex_def hexDigit_def)

lemma expired_lockedWorld:
  "healthy (lockedWorld\<lparr>now := 1900000\<rparr>)"
  "recordedLockedUntil (lockedWorld\<lparr>now := 1900000\<rparr>) exampleUser = Some 1900000"
  "now (lockedWorld\<lparr>now := 1900000\<rparr>) = 1900000"
  "notLockedOut (lockedWorld\<lparr>now := 1900000\<rparr>) exampleUser"
proof -
  show "healthy (lockedWorld\<lparr>now := 1900000\<rparr>)" by (simp add: healthy_lockedWorld)
  show "recordedLockedUntil (lockedWorld\<lparr>now := 1900000\<rparr>) exampleUser = Some 1900000"
    by (simp add: recordedLockedUntil_lockedWorld)
  show "now (lockedWorld\<lparr>now := 1900000\<rparr>) = 1900000" by simp
  show "notLockedOut (lockedWorld\<lparr>now := 1900000\<rparr>) exampleUser"
    by (simp add: notLockedOut_def lockedWorld_def)
qed

subsection \<open>How a user comes to hold one secret as PIN record and lockout record\<close>

text \<open>
  For the long user \<^verbatim>\<open>saveUserPin\<close> leaves a PIN record only when the delete of
  \<^verbatim>\<open>clearUserLockout\<close> fails, which that function ignores. From then on the module
  alone leads to the state of \<open>longExpiredWorld\<close>: three wrong PINs lock the user, the
  counter and the lockout time being written into the PIN record, and the first
  verification after the 15 minutes, with the PIN that was set, answers "No PIN set".
\<close>

lemma saveUserPin_delete_outage:
  "fst (saveUserPin deleteOutageWorld longUser ''1234'') = Inr ()"
  "healthy (snd (saveUserPin deleteOutageWorld longUser ''1234''))"
  "now (snd (saveUserPin deleteOutageWorld longUser ''1234'')) = 1000000"
  "cleanWith (snd (saveUserPin deleteOutageWorld longUser ''1234'')) longUser 0"
  "correctPin (snd (saveUserPin deleteOutageWorld longUser ''1234'')) longUser ''1234''"
  "wrongPin (snd (saveUserPin deleteOutageWorld longUser ''1234'')) longUser ''0000''"
proof -
  let ?rec = "Json \<lparr>hash = Some (hashPin emptyWorld ''1234'' (toHex ''seed'')),
                      salt = Some (toHex ''seed''), failedAttempts = None, lockedUntil = None\<rparr>"
  have s: "saveUserPin deleteOutageWorld longUser ''1234'' =
     (Inr (), emptyWorld\<lparr>trace := [HashPinCalled ''1234'' (toHex ''seed'')],
                faults := [],
                secrets := (\<lambda>name. None)(getPinSecretName longUser := Some ?rec)\<rparr>)"
    using pinFormat_1234 healthy_emptyWorld
    by (simp add: saveUserPin_def deleteOutageWorld_def healthy_def client_setSecret_def
        nextFault_def clearUserLockout_def client_beginDeleteSecret_def Let_def hashPin_def)
      (simp add: emptyWorld_def)
  show "fst (saveUserPin deleteOutageWorld longUser ''1234'') = Inr ()" by (simp add: s)
  show "healthy (snd (saveUserPin deleteOutageWorld longUser ''1234''))"
    using healthy_emptyWorld by (simp add: s healthy_def getClient_def)
  show "now (snd (saveUserPin deleteOutageWorld longUser ''1234'')) = 1000000"
    by (simp add: s emptyWorld_def)
  show "cleanWith (snd (saveUserPin deleteOutageWorld longUser ''1234'')) longUser 0"
    by (simp add: s cleanWith_def)
  show "correctPin (snd (saveUserPin deleteOutageWorld longUser ''1234'')) longUser ''1234''"
    by (simp add: s correctPin_def pinRecord_def hashPin_def)
  show "wrongPin (snd (saveUserPin deleteOutageWorld longUser ''1234'')) longUser ''0000''"
    by (simp add: s wrongPin_def pinRecord_def hashPin_def emptyWorld_def exampleKdf_def
        toHex_def hexDigit_def)
qed

lemma long_user_run:
  "let r0 = saveUserPin deleteOutageWorld longUser ''1234'';
       r1 = verifyUserPin (snd r0) longUser ''0000'';
       r2 = verifyUserPin (snd r1) longUser ''0000'';
       r3 = verifyUserPin (snd r2) longUser ''0000'';
       r4 = verifyUserPin ((snd r3)\<lparr>now := 1900000\<rparr>) longUser ''1234''
   in fst r0 = Inr ()
    \<and> fst r1 = Inr \<lparr>locked = False, attemptsLeft = 2, unlockTime = None,
                     valid = False, error = Some (IncorrectPin 2)\<rparr>
    \<and> fst r2 = Inr \<lparr>locked = False, attemptsLeft = 1, unlockTime = None,
                     valid = False, error = Some (IncorrectPin 1)\<rparr>
    \<and> fst r3 = Inr \<lparr>locked = True, attemptsLeft = 0, unlockTime = Some 1900000,
                     valid = False, error = Some TooMany15Minutes\<rparr>
    \<and> fst r4 = Inr \<lparr>locked = False, attemptsLeft = 3, unlockTime = None,
                     valid = False, error = Some NoPinSet\<rparr>"
proof -
  let ?w0 = "snd (saveUserPin deleteOutageWorld longUser ''1234'')"
  note s = saveUserPin_delete_outage
  from verifyUserPin_wrong_clean[OF s(2) s(6) s(4)] obtain w1 where
    r1: "verifyUserPin ?w0 longUser ''0000'' =
       (Inr (if 3 \<le> (0::nat) + 1
             then \<lparr>locked = True, attemptsLeft = 0, unlockTime = Some (now ?w0 + 900000),
                   valid = False, error = Some TooMany15Minutes\<rparr>
             else \<lparr>locked = False, attemptsLeft = 3 - int ((0::nat) + 1), unlockTime = None,
                   valid = False, error = Some (IncorrectPin (3 - int ((0::nat) + 1)))\<rparr>), w1)"
    and h1: "healthy w1" and n1: "now w1 = now ?w0"
    and wp1: "\<And>q. wrongPin w1 longUser q = wrongPin ?w0 longUser q"
    and c1: "(0::nat) + 1 < 3 \<Longrightarrow> cleanWith w1 longUser ((0::nat) + 1)"
    by blast
  have wr1: "wrongPin w1 longUser ''0000''" using wp1 s(6) by simp
  have cl1: "cleanWith w1 longUser 1" using c1 by simp
  from verifyUserPin_wrong_clean[OF h1 wr1 cl1] obtain w2 where
    r2: "verifyUserPin w1 longUser ''0000'' =
       (Inr (if 3 \<le> (1::nat) + 1
             then \<lparr>locked = True, attemptsLeft = 0, unlockTime = Some (now w1 + 900000),
                   valid = False, error = Some TooMany15Minutes\<rparr>
             else \<lparr>locked = False, attemptsLeft = 3 - int ((1::nat) + 1), unlockTime = None,
                   valid = False, error = Some (IncorrectPin (3 - int ((1::nat) + 1)))\<rparr>), w2)"
    and h2: "healthy w2" and n2: "now w2 = now w1"
    and wp2: "\<And>q. wrongPin w2 longUser q = wrongPin w1 longUser q"
    and c2: "(1::nat) + 1 < 3 \<Longrightarrow> cleanWith w2 longUser ((1::nat) + 1)"
    by blast
  have wr2: "wrongPin w2 longUser ''0000''" using wp2 wr1 by simp
  have cl2: "cleanWith w2 longUser 2" using c2 by (simp add: numeral_2_eq_2)
  from verifyUserPin_wrong_clean[OF h2 wr2 cl2] obtain w3 where
    r3: "verifyUserPin w2 longUser ''0000'' =
       (Inr (if 3 \<le> (2::nat) + 1
             then \<lparr>locked = True, attemptsLeft = 0, unlockTime = Some (now w2 + 900000),
                   valid = False, error = Some TooMany15Minutes\<rparr>
             else \<lparr>locked = False, attemptsLeft = 3 - int ((2::nat) + 1), unlockTime = None,
                   valid = False, error = Some (IncorrectPin (3 - int ((2::nat) + 1)))\<rparr>), w3)"
    and h3: "healthy w3"
    and l3: "3 \<le> (2::nat) + 1 \<Longrightarrow> recordedLockedUntil w3 longUser = Some (now w2 + 900000)"
    by blast
  have t: "now w2 + 900000 = 1900000" using n2 n1 s(3) by simp
  have lu: "recordedLockedUntil w3 longUser = Some 1900000" using l3 t by simp
  have r4: "fst (verifyUserPin (w3\<lparr>now := 1900000\<rparr>) longUser ''1234'') =
     Inr \<lparr>locked = False, attemptsLeft = 3, unlockTime = None, valid = False,
            error = Some NoPinSet\<rparr>"
    using verifyUserPin_expired_same_name[of "w3\<lparr>now := 1900000\<rparr>" longUser 1900000 "''1234''"]
      h3 lu
    by simp
  show ?thesis
    by (simp add: Let_def s(1) r1 r2 r3 r4 t)
qed

section \<open>The claims\<close>

subsection \<open>C1: setting a PIN, then verifying it\<close>

text \<open>
  C1 fails on the code. \<^verbatim>\<open>saveUserPin\<close> writes the PIN record and then calls
  \<^verbatim>\<open>clearUserLockout\<close>, which deletes the secret of the lockout name. Both names are cut
  at 127 characters, and for a user id whose lower case has 119 code units or more the
  lockout name is the PIN name: the call deletes the record it has just written and
  reports success. In a healthy world with no secret stored, for the user id of 119
  letters \<^verbatim>\<open>a\<close> and for the user id of 64 characters U+0130: setting the PIN 1234
  succeeds, no PIN record is stored afterwards, and verifying 1234 answers "No PIN
  set".
\<close>

theorem set_then_verify_long_user:
  "healthy emptyWorld \<and> pinFormat ''1234''
   \<and> fst (saveUserPin emptyWorld longUser ''1234'') = Inr ()
   \<and> secrets (snd (saveUserPin emptyWorld longUser ''1234'')) (getPinSecretName longUser) = None
   \<and> fst (verifyUserPin (snd (saveUserPin emptyWorld longUser ''1234'')) longUser ''1234'')
       = Inr \<lparr>locked = False, attemptsLeft = 3, unlockTime = None,
              valid = False, error = Some NoPinSet\<rparr>
   \<and> length dottedUser = 64
   \<and> fst (saveUserPin emptyWorld dottedUser ''1234'') = Inr ()
   \<and> secrets (snd (saveUserPin emptyWorld dottedUser ''1234'')) (getPinSecretName dottedUser)
       = None
   \<and> fst (verifyUserPin (snd (saveUserPin emptyWorld dottedUser ''1234'')) dottedUser ''1234'')
       = Inr \<lparr>locked = False, attemptsLeft = 3, unlockTime = None,
              valid = False, error = Some NoPinSet\<rparr>"
proof -
  have n: "(snd (saveUserPin emptyWorld userId ''1234''))\<lparr>now := now emptyWorld\<rparr>
             = snd (saveUserPin emptyWorld userId ''1234'')" for userId
    by (simp add: saveUserPin_healthy[OF healthy_emptyWorld pinFormat_1234])
  have l: "getPinSecretName longUser = getLockoutSecretName longUser" by simp
  show ?thesis
    using set_then_verify_same_name[OF healthy_emptyWorld pinFormat_1234 l, of "now emptyWorld"]
      set_then_verify_same_name[OF healthy_emptyWorld pinFormat_1234 dotted_names,
        of "now emptyWorld"]
    by (simp add: n healthy_emptyWorld pinFormat_1234 dottedUser_length)
qed

subsection \<open>C2: three wrong attempts\<close>

text \<open>
  C2. For every user with a PIN set and a clean lockout state (no failure on record),
  three consecutive \<^verbatim>\<open>verifyUserPin\<close> calls with wrong PINs, at the times \<open>t1\<close>,
  \<open>t2\<close>, \<open>t3\<close>, return \<^verbatim>\<open>attemptsLeft\<close> 2, 1 and 0; the third result is locked with
  \<^verbatim>\<open>unlockTime\<close> the time of the third call plus 15 minutes; a fourth attempt before
  that time, with any PIN, is rejected as locked and returns the world as it was, trace
  included: no hash is computed and no store write is made.
\<close>

theorem three_wrong_attempts_lock:
  assumes "healthy w" and "cleanWith w userId 0"
    and "wrongPin w userId p1" and "wrongPin w userId p2" and "wrongPin w userId p3"
    and "t4 < t3 + LOCKOUT_DURATION_MS"
  shows "let r1 = verifyUserPin (w\<lparr>now := t1\<rparr>) userId p1;
             r2 = verifyUserPin ((snd r1)\<lparr>now := t2\<rparr>) userId p2;
             r3 = verifyUserPin ((snd r2)\<lparr>now := t3\<rparr>) userId p3;
             w4 = (snd r3)\<lparr>now := t4\<rparr>
         in fst r1 = Inr \<lparr>locked = False, attemptsLeft = 2, unlockTime = None,
                          valid = False, error = Some (IncorrectPin 2)\<rparr>
          \<and> fst r2 = Inr \<lparr>locked = False, attemptsLeft = 1, unlockTime = None,
                          valid = False, error = Some (IncorrectPin 1)\<rparr>
          \<and> fst r3 = Inr \<lparr>locked = True, attemptsLeft = 0,
                          unlockTime = Some (t3 + LOCKOUT_DURATION_MS),
                          valid = False, error = Some TooMany15Minutes\<rparr>
          \<and> verifyUserPin w4 userId p4
              = (Inr \<lparr>locked = True, attemptsLeft = 0,
                       unlockTime = Some (t3 + LOCKOUT_DURATION_MS), valid = False,
                       error = Some (TooManyUntil (Some (t3 + LOCKOUT_DURATION_MS)))\<rparr>, w4)"
proof -
  obtain w1 where
    r1: "verifyUserPin (w\<lparr>now := t1\<rparr>) userId p1 =
          (Inr \<lparr>locked = False, attemptsLeft = 2, unlockTime = None,
                 valid = False, error = Some (IncorrectPin 2)\<rparr>, w1)"
    and h1: "healthy w1" and wp1: "\<And>q. wrongPin w1 userId q = wrongPin w userId q"
    and c1: "cleanWith w1 userId (Suc 0)"
    using verifyUserPin_wrong_clean[of "w\<lparr>now := t1\<rparr>" userId p1 0] assms by auto
  obtain w2 where
    r2: "verifyUserPin (w1\<lparr>now := t2\<rparr>) userId p2 =
          (Inr \<lparr>locked = False, attemptsLeft = 1, unlockTime = None,
                 valid = False, error = Some (IncorrectPin 1)\<rparr>, w2)"
    and h2: "healthy w2" and wp2: "\<And>q. wrongPin w2 userId q = wrongPin w userId q"
    and c2: "cleanWith w2 userId (Suc (Suc 0))"
    using verifyUserPin_wrong_clean[of "w1\<lparr>now := t2\<rparr>" userId p2 "Suc 0"] assms h1 wp1 c1
    by auto
  obtain w3 where
    r3: "verifyUserPin (w2\<lparr>now := t3\<rparr>) userId p3 =
          (Inr \<lparr>locked = True, attemptsLeft = 0, unlockTime = Some (t3 + 900000),
                 valid = False, error = Some TooMany15Minutes\<rparr>, w3)"
    and h3: "healthy w3"
    and l3: "recordedLockedUntil w3 userId = Some (t3 + 900000)"
    using verifyUserPin_wrong_clean[of "w2\<lparr>now := t3\<rparr>" userId p3 "Suc (Suc 0)"]
      assms h2 wp2 c2
    by auto
  have r4: "verifyUserPin (w3\<lparr>now := t4\<rparr>) userId p4 =
     (Inr \<lparr>locked = True, attemptsLeft = 0, unlockTime = Some (t3 + 900000), valid = False,
            error = Some (TooManyUntil (Some (t3 + 900000)))\<rparr>, w3\<lparr>now := t4\<rparr>)"
    using verifyUserPin_locked[of "w3\<lparr>now := t4\<rparr>" userId "t3 + 900000" p4] h3 l3 assms(6)
    by (simp add: LOCKOUT_DURATION_MS_def)
  show ?thesis
    by (simp add: r1 r2 r3 r4 LOCKOUT_DURATION_MS_def)
qed

theorem three_wrong_attempts_lock_witness:
  "fst (verifyUserPin ((snd (verifyUserPin ((snd (verifyUserPin (pinWorld\<lparr>now := 1000000\<rparr>)
       exampleUser ''0000''))\<lparr>now := 1000060\<rparr>) exampleUser ''0000''))\<lparr>now := 1000120\<rparr>)
       exampleUser ''0000'')
   = Inr \<lparr>locked = True, attemptsLeft = 0, unlockTime = Some 1900120,
            valid = False, error = Some TooMany15Minutes\<rparr>"
  using three_wrong_attempts_lock[OF healthy_pinWorld cleanWith_pinWorld
      wrongPin_pinWorld_0000 wrongPin_pinWorld_0000 wrongPin_pinWorld_0000,
      where ?t1.0 = 1000000 and ?t2.0 = 1000060 and ?t3.0 = 1000120 and ?t4.0 = 1000180
        and ?p4.0 = "''1234''"]
  by (simp add: Let_def LOCKOUT_DURATION_MS_def)

subsection \<open>C3: a lockout and its expiry\<close>

text \<open>
  C3 fails on the code, by the defect of C1: for a user id whose lower case has 119 code
  units or more, the PIN secret and the lockout secret are one secret, and the
  \<^verbatim>\<open>clearUserLockout\<close> of the status check that finds the lockout expired deletes the PIN
  record with it. The user id of 119 letters \<^verbatim>\<open>a\<close> holds the PIN 1234 and a lockout
  that ended at 900000; at the time 1000000, in a healthy world, the correct PIN 1234
  is not compared with the stored hash: the call answers "No PIN set", and no PIN
  record is stored afterwards.
\<close>

theorem expired_lockout_deletes_pin:
  "healthy longExpiredWorld
   \<and> recordedLockedUntil longExpiredWorld longUser = Some 900000
   \<and> now longExpiredWorld = 1000000
   \<and> correctPin longExpiredWorld longUser ''1234''
   \<and> fst (verifyUserPin longExpiredWorld longUser ''1234'') =
       Inr \<lparr>locked = False, attemptsLeft = 3, unlockTime = None, valid = False,
              error = Some NoPinSet\<rparr>
   \<and> secrets (snd (verifyUserPin longExpiredWorld longUser ''1234''))
         (getPinSecretName longUser) = None"
  using verifyUserPin_expired_same_name[OF healthy_longExpiredWorld
      recordedLockedUntil_longExpiredWorld _ now_longExpiredWorld, of "''1234''"]
  by (simp add: healthy_longExpiredWorld recordedLockedUntil_longExpiredWorld
      correctPin_longExpiredWorld)
    (simp add: longExpiredWorld_def emptyWorld_def)

subsection \<open>C4: a store failure while recording a failed attempt\<close>

text \<open>
  C4 fails on the code. The example user has two failed attempts on record and one
  attempt left; without an outage a further wrong PIN locks the account. When the read
  inside \<^verbatim>\<open>recordFailedAttempt\<close> fails with HTTP 503 (not a 404), the failure is taken
  for a missing record: the call answers "2 attempts remaining" and the stored counter
  goes from 2 to 1.
\<close>

theorem read_outage_restores_attempts:
  "budget twoFailuresWorld exampleUser = 1
   \<and> fst (verifyUserPin twoFailuresWorld exampleUser ''0000'') =
       Inr \<lparr>locked = True, attemptsLeft = 0, unlockTime = Some 1900000, valid = False,
              error = Some TooMany15Minutes\<rparr>
   \<and> fst (verifyUserPin outageWorld exampleUser ''0000'') =
       Inr \<lparr>locked = False, attemptsLeft = 2, unlockTime = None, valid = False,
              error = Some (IncorrectPin 2)\<rparr>
   \<and> secrets (snd (verifyUserPin outageWorld exampleUser ''0000''))
         (getLockoutSecretName exampleUser) =
       Some (Json \<lparr>hash = None, salt = None, failedAttempts = Some 1, lockedUntil = None\<rparr>)"
proof -
  have b: "budget twoFailuresWorld exampleUser = 1"
    using budget_clean[OF healthy_twoFailuresWorld cleanWith_twoFailuresWorld] by simp
  have n: "now twoFailuresWorld = 1000000"
    by (simp add: twoFailuresWorld_def pinWorld_def emptyWorld_def)
  have v1: "fst (verifyUserPin twoFailuresWorld exampleUser ''0000'') =
       Inr \<lparr>locked = True, attemptsLeft = 0, unlockTime = Some 1900000, valid = False,
              error = Some TooMany15Minutes\<rparr>"
    using verifyUserPin_wrong_clean_fst[OF healthy_twoFailuresWorld
        wrongPin_twoFailuresWorld_0000 cleanWith_twoFailuresWorld]
    by (simp add: n)
  let ?w1 = "twoFailuresWorld\<lparr>faults := [None, Some (RestError ''ServiceUnavailable'' 503)]\<rparr>"
  let ?w2 = "twoFailuresWorld\<lparr>faults := [Some (RestError ''ServiceUnavailable'' 503)]\<rparr>"
  have g: "getLockoutStatus outageWorld exampleUser = (Inr (unlockedStatus 1), ?w1)"
    by (simp add: getLockoutStatus_def outageWorld_def getClient_twoFailuresWorld
        client_getSecret_through)
      (simp add: twoFailuresWorld_def MAX_PIN_ATTEMPTS_def)
  have p: "client_getSecret ?w1 (getPinSecretName exampleUser) = (Inr examplePinRecord, ?w2)"
    by (simp add: client_getSecret_through) (simp add: twoFailuresWorld_def pinWorld_def)
  have r: "recordFailedAttempt
             (?w2\<lparr>trace := HashPinCalled ''0000'' ''5eed'' # trace ?w2\<rparr>) exampleUser =
     (Inr \<lparr>locked = False, attemptsLeft = 2, unlockTime = None\<rparr>,
      ?w2\<lparr>trace := HashPinCalled ''0000'' ''5eed'' # trace ?w2, faults := [],
        secrets := (secrets ?w2)(getLockoutSecretName exampleUser :=
          Some (Json \<lparr>hash = None, salt = None, failedAttempts = Some 1,
                       lockedUntil = None\<rparr>))\<rparr>)"
    using recordFailedAttempt_read_failure[of
        "?w2\<lparr>trace := HashPinCalled ''0000'' ''5eed'' # trace ?w2\<rparr>"
        "RestError ''ServiceUnavailable'' 503" exampleUser]
    by (simp add: getClient_twoFailuresWorld)
  have ne: "Some (hashPin emptyWorld ''0000'' ''5eed'') \<noteq> Some (hashPin emptyWorld ''1234'' ''5eed'')"
    by (simp add: hashPin_def emptyWorld_def exampleKdf_def toHex_def hexDigit_def)
  have v2: "fst (verifyUserPin outageWorld exampleUser ''0000'') =
       Inr \<lparr>locked = False, attemptsLeft = 2, unlockTime = None, valid = False,
              error = Some (IncorrectPin 2)\<rparr>
     \<and> secrets (snd (verifyUserPin outageWorld exampleUser ''0000''))
         (getLockoutSecretName exampleUser) =
       Some (Json \<lparr>hash = None, salt = None, failedAttempts = Some 1, lockedUntil = None\<rparr>)"
    using ne
    by (simp add: verifyUserPin_def g unlockedStatus_def getClient_twoFailuresWorld p
        examplePinRecord_def r[simplified] Let_def)
  show ?thesis by (simp add: b v1 v2)
qed

subsection \<open>C5: reading a secret with the correct PIN\<close>

text \<open>
  C5, as amended. In a healthy world, \<^verbatim>\<open>saveSecret\<close> stores the value under the name
  derived from user id, category and key. For every user who is not locked out, and the
  PIN that matches the PIN record which the status check of the call leaves in place:
  when the derived name holds a non-empty value \<open>v\<close> that \<^verbatim>\<open>saveSecret\<close> stored,
  \<^verbatim>\<open>getSecretWithPin\<close> returns \<^verbatim>\<open>success = true\<close> with exactly \<open>v\<close>; and when the derived
  name holds no secret, it returns \<^verbatim>\<open>success = false\<close> with "Secret not found" and
  neither \<^verbatim>\<open>locked\<close> nor \<^verbatim>\<open>attemptsLeft\<close>.
\<close>

theorem pin_gated_secret:
  assumes "healthy w" and "notLockedOut w userId"
    and "correctPin (afterStatusCheck w userId) userId pin"
  shows "fst (saveSecret w userId category key v) = Inr ()
       \<and> secrets (snd (saveSecret w userId category key v))
             (getSecretName userId category key) = Some (Text v)
       \<and> (secrets w (getSecretName userId category key) = Some (Text v) \<and> v \<noteq> [] \<longrightarrow>
            fst (getSecretWithPin w userId pin category key) =
              Inr \<lparr>success = True, secret = Some (Text v), errorMessage = None,
                     lockedField = None, attemptsLeftField = None\<rparr>)
       \<and> (secrets w (getSecretName userId category key) = None \<longrightarrow>
            fst (getSecretWithPin w userId pin category key) =
              Inr \<lparr>success = False, secret = None, errorMessage = Some SecretNotFoundMsg,
                     lockedField = None, attemptsLeftField = None\<rparr>)"
proof (intro conjI impI)
  show "fst (saveSecret w userId category key v) = Inr ()"
    by (simp add: saveSecret_healthy[OF assms(1)])
  show "secrets (snd (saveSecret w userId category key v))
          (getSecretName userId category key) = Some (Text v)"
    by (simp add: saveSecret_healthy[OF assms(1)])
next
  assume s: "secrets w (getSecretName userId category key) = Some (Text v) \<and> v \<noteq> []"
  then have "getSecretName userId category key \<noteq> getLockoutSecretName userId"
    using saved_value_not_lockout[OF assms(2)] by blast
  with s show "fst (getSecretWithPin w userId pin category key) =
      Inr \<lparr>success = True, secret = Some (Text v), errorMessage = None,
             lockedField = None, attemptsLeftField = None\<rparr>"
    by (simp add: getSecretWithPin_correct[OF assms])
next
  assume "secrets w (getSecretName userId category key) = None"
  then show "fst (getSecretWithPin w userId pin category key) =
      Inr \<lparr>success = False, secret = None, errorMessage = Some SecretNotFoundMsg,
             lockedField = None, attemptsLeftField = None\<rparr>"
    by (simp add: getSecretWithPin_correct[OF assms])
qed

theorem pin_gated_secret_witness:
  "fst (getSecretWithPin
          (snd (saveSecret pinWorld exampleUser Financial (codeUnits ''ssn'') ''123-45-6789''))
          exampleUser ''1234'' Financial (codeUnits ''ssn'')) =
     Inr \<lparr>success = True, secret = Some (Text ''123-45-6789''), errorMessage = None,
            lockedField = None, attemptsLeftField = None\<rparr>
   \<and> fst (getSecretWithPin pinWorld exampleUser ''1234'' Identity (codeUnits ''passport'')) =
     Inr \<lparr>success = False, secret = None, errorMessage = Some SecretNotFoundMsg,
            lockedField = None, attemptsLeftField = None\<rparr>"
proof -
  let ?S = "getSecretName exampleUser Financial (codeUnits ''ssn'')"
  have s: "?S \<noteq> getPinSecretName exampleUser" "?S \<noteq> getLockoutSecretName exampleUser"
    using secret_name_not_system[of exampleUser Financial "codeUnits ''ssn''"] exampleUser_short
    by simp_all
  let ?w1 = "pinWorld\<lparr>secrets := (secrets pinWorld)(?S := Some (Text ''123-45-6789''))\<rparr>"
  have w1: "snd (saveSecret pinWorld exampleUser Financial (codeUnits ''ssn'') ''123-45-6789'')
              = ?w1"
    by (simp add: saveSecret_healthy[OF healthy_pinWorld])
  have h1: "healthy ?w1" by (simp add: healthy_pinWorld)
  have c1: "cleanWith ?w1 exampleUser 0"
    using s(2) by (simp add: cleanWith_other_secret cleanWith_pinWorld)
  have n1: "notLockedOut ?w1 exampleUser"
    using s(2) by (simp add: notLockedOut_other_secret notLockedOut_pinWorld)
  have cp1: "correctPin (afterStatusCheck ?w1 exampleUser) exampleUser ''1234''"
    using s(1) by (simp add: afterStatusCheck_clean[OF h1 c1] correctPin_other_secret
        correctPin_pinWorld)
  have cp0: "correctPin (afterStatusCheck pinWorld exampleUser) exampleUser ''1234''"
    by (simp add: afterStatusCheck_pinWorld correctPin_pinWorld)
  show ?thesis
    using pin_gated_secret[OF h1 n1 cp1, of Financial "codeUnits ''ssn''" "''123-45-6789''"]
      pin_gated_secret[OF healthy_pinWorld notLockedOut_pinWorld cp0,
        of Identity "codeUnits ''passport''" "[]"]
      absent_secret_pinWorld
    by (simp add: w1)
qed

text \<open>
  C5 as stated fails three times, each with the correct PIN. The empty string can be
  saved, and \<^verbatim>\<open>getSecret\<close> (\<^verbatim>\<open>secret.value || null\<close>) and \<^verbatim>\<open>getSecretWithPin\<close>
  (\<^verbatim>\<open>!value\<close>) both read it as no secret. A locked user gets the lockout failure, with
  its \<^verbatim>\<open>locked\<close> and \<^verbatim>\<open>attemptsLeft\<close> fields, whatever is stored. And a secret is found
  by its derived name, which does not tell \<^verbatim>\<open>SSN\<close> from \<^verbatim>\<open>ssn\<close>: after a save under the
  key \<^verbatim>\<open>SSN\<close> alone, the read under the key \<^verbatim>\<open>ssn\<close>, under which nothing was saved,
  succeeds with that value.
\<close>

theorem secret_not_returned:
  "healthy pinWorld \<and> correctPin pinWorld exampleUser ''1234''
   \<and> notLockedOut pinWorld exampleUser
   \<and> fst (saveSecret pinWorld exampleUser Financial (codeUnits ''ssn'') []) = Inr ()
   \<and> fst (getSecretWithPin
            (snd (saveSecret pinWorld exampleUser Financial (codeUnits ''ssn'') []))
            exampleUser ''1234'' Financial (codeUnits ''ssn'')) =
       Inr \<lparr>success = False, secret = None, errorMessage = Some SecretNotFoundMsg,
              lockedField = None, attemptsLeftField = None\<rparr>
   \<and> correctPin lockedWorld exampleUser ''1234''
   \<and> fst (getSecretWithPin
            (snd (saveSecret lockedWorld exampleUser Financial (codeUnits ''ssn'')
                    ''123-45-6789''))
            exampleUser ''1234'' Financial (codeUnits ''ssn'')) =
       Inr \<lparr>success = False, secret = None,
              errorMessage = Some (TooManyUntil (Some 1900000)),
              lockedField = Some True, attemptsLeftField = Some 0\<rparr>
   \<and> codeUnits ''ssn'' \<noteq> codeUnits ''SSN''
   \<and> fst (getSecretWithPin
            (snd (saveSecret pinWorld exampleUser Financial (codeUnits ''SSN'') ''123-45-6789''))
            exampleUser ''1234'' Financial (codeUnits ''ssn'')) =
       Inr \<lparr>success = True, secret = Some (Text ''123-45-6789''), errorMessage = None,
              lockedField = None, attemptsLeftField = None\<rparr>"
proof -
  let ?S = "getSecretName exampleUser Financial (codeUnits ''ssn'')"
  have s: "?S \<noteq> getPinSecretName exampleUser" "?S \<noteq> getLockoutSecretName exampleUser"
    using secret_name_not_system[of exampleUser Financial "codeUnits ''ssn''"] exampleUser_short
    by simp_all
  have k: "getSecretName exampleUser Financial (codeUnits ''SSN'') = ?S"
    by (rule key_case_collision)
  have stored: "healthy (pinWorld\<lparr>secrets := (secrets pinWorld)(?S := Some x)\<rparr>)
      \<and> notLockedOut (pinWorld\<lparr>secrets := (secrets pinWorld)(?S := Some x)\<rparr>) exampleUser
      \<and> correctPin (afterStatusCheck (pinWorld\<lparr>secrets := (secrets pinWorld)(?S := Some x)\<rparr>)
            exampleUser) exampleUser ''1234''" for x
  proof -
    let ?w = "pinWorld\<lparr>secrets := (secrets pinWorld)(?S := Some x)\<rparr>"
    have h: "healthy ?w" by (simp add: healthy_pinWorld)
    have c: "cleanWith ?w exampleUser 0"
      using s(2) by (simp add: cleanWith_other_secret cleanWith_pinWorld)
    have n: "notLockedOut ?w exampleUser"
      using s(2) by (simp add: notLockedOut_other_secret notLockedOut_pinWorld)
    have "correctPin (afterStatusCheck ?w exampleUser) exampleUser ''1234''"
      using s(1) by (simp add: afterStatusCheck_clean[OF h c] correctPin_other_secret
          correctPin_pinWorld)
    with h n show ?thesis by simp
  qed
  have a: "fst (getSecretWithPin
            (snd (saveSecret pinWorld exampleUser Financial (codeUnits ''ssn'') []))
            exampleUser ''1234'' Financial (codeUnits ''ssn'')) =
       Inr \<lparr>success = False, secret = None, errorMessage = Some SecretNotFoundMsg,
              lockedField = None, attemptsLeftField = None\<rparr>"
    using stored[of "Text []"] s(2)
    by (simp add: saveSecret_healthy[OF healthy_pinWorld] getSecretWithPin_correct)
  let ?w2 = "lockedWorld\<lparr>secrets := (secrets lockedWorld)(?S := Some (Text ''123-45-6789''))\<rparr>"
  have h2: "healthy ?w2" by (simp add: healthy_lockedWorld)
  have l2: "recordedLockedUntil ?w2 exampleUser = Some 1900000"
    using s(2) by (simp add: recordedLockedUntil_other_secret recordedLockedUntil_lockedWorld)
  have n2: "now ?w2 < 1900000" using now_lockedWorld by simp
  have b: "fst (getSecretWithPin
            (snd (saveSecret lockedWorld exampleUser Financial (codeUnits ''ssn'')
                    ''123-45-6789''))
            exampleUser ''1234'' Financial (codeUnits ''ssn'')) =
       Inr \<lparr>success = False, secret = None,
              errorMessage = Some (TooManyUntil (Some 1900000)),
              lockedField = Some True, attemptsLeftField = Some 0\<rparr>"
    using getSecretWithPin_invalid[OF verifyUserPin_locked[OF h2 l2 n2, of "''1234''"],
        of Financial "codeUnits ''ssn''"]
    by (simp add: saveSecret_healthy healthy_lockedWorld)
  have c: "fst (getSecretWithPin
            (snd (saveSecret pinWorld exampleUser Financial (codeUnits ''SSN'') ''123-45-6789''))
            exampleUser ''1234'' Financial (codeUnits ''ssn'')) =
       Inr \<lparr>success = True, secret = Some (Text ''123-45-6789''), errorMessage = None,
              lockedField = None, attemptsLeftField = None\<rparr>"
    using stored[of "Text ''123-45-6789''"] s(2)
    by (simp add: saveSecret_healthy[OF healthy_pinWorld] k getSecretWithPin_correct)
  have d: "codeUnits ''ssn'' \<noteq> codeUnits ''SSN''" by (simp add: codeUnits_def)
  show ?thesis
    using a b c d
    by (simp add: healthy_pinWorld correctPin_pinWorld notLockedOut_pinWorld
        saveSecret_healthy correctPin_lockedWorld)
qed

subsection \<open>C6: reading a secret with a wrong PIN\<close>

text \<open>
  C6, as amended. In a healthy world, for every user who is not locked out, and every
  PIN that is wrong for the PIN record which the status check of the call leaves in
  place, \<^verbatim>\<open>getSecretWithPin\<close> returns the failure of \<^verbatim>\<open>verifyUserPin\<close> unchanged (error,
  locked, attemptsLeft) together with the world \<^verbatim>\<open>verifyUserPin\<close> leaves, never enters
  \<^verbatim>\<open>getSecret\<close>, and takes exactly one attempt from the budget (which does not go below
  0).
\<close>

theorem wrong_pin_never_reaches_store:
  assumes "healthy w" and "notLockedOut w userId"
    and "wrongPin (afterStatusCheck w userId) userId pin"
  shows "\<exists>pr. fst (verifyUserPin w userId pin) = Inr pr
       \<and> \<not> valid pr
       \<and> getSecretWithPin w userId pin category key =
           (Inr \<lparr>success = False, secret = None, errorMessage = error pr,
                  lockedField = Some (locked pr),
                  attemptsLeftField = Some (attemptsLeft pr)\<rparr>,
            snd (verifyUserPin w userId pin))
       \<and> getSecretCalls (snd (getSecretWithPin w userId pin category key)) = getSecretCalls w
       \<and> budget (snd (getSecretWithPin w userId pin category key)) userId
           = max 0 (budget w userId - 1)"
proof -
  from verifyUserPin_wrong[OF assms]
  obtain pr w' where v: "verifyUserPin w userId pin = (Inr pr, w')" and nv: "\<not> valid pr"
    and a: "attemptsLeft pr = max 0 (budget w userId - 1)"
    and b: "budget w' userId = attemptsLeft pr"
    and g: "getSecretCalls w' = getSecretCalls w"
    by blast
  show ?thesis
    using getSecretWithPin_invalid[OF v nv, of category key] v nv a b g by simp
qed

theorem wrong_pin_never_reaches_store_witness:
  "budget pinWorld exampleUser = 3
   \<and> fst (getSecretWithPin pinWorld exampleUser ''0000'' Financial (codeUnits ''ssn'')) =
       Inr \<lparr>success = False, secret = None, errorMessage = Some (IncorrectPin 2),
              lockedField = Some False, attemptsLeftField = Some 2\<rparr>
   \<and> getSecretCalls
       (snd (getSecretWithPin pinWorld exampleUser ''0000'' Financial (codeUnits ''ssn'')))
       = getSecretCalls pinWorld
   \<and> budget (snd (getSecretWithPin pinWorld exampleUser ''0000'' Financial (codeUnits ''ssn'')))
       exampleUser = 2
   \<and> budget longPinWorld longUser = 3
   \<and> budget (snd (getSecretWithPin longPinWorld longUser ''0000'' Financial (codeUnits ''ssn'')))
       longUser = 2"
proof -
  have lb: "budget longPinWorld longUser = 3"
    using budget_clean[OF healthy_longPinWorld cleanWith_longPinWorld] by simp
  have lwp: "wrongPin (afterStatusCheck longPinWorld longUser) longUser ''0000''"
    by (simp add: afterStatusCheck_clean[OF healthy_longPinWorld cleanWith_longPinWorld]
        wrongPin_longPinWorld)
  from wrong_pin_never_reaches_store[OF healthy_longPinWorld notLockedOut_longPinWorld lwp,
      of Financial "codeUnits ''ssn''"] lb
  have l: "budget
      (snd (getSecretWithPin longPinWorld longUser ''0000'' Financial (codeUnits ''ssn'')))
      longUser = 2"
    by auto
  have b: "budget pinWorld exampleUser = 3"
    using budget_clean[OF healthy_pinWorld cleanWith_pinWorld] by simp
  have wp: "wrongPin (afterStatusCheck pinWorld exampleUser) exampleUser ''0000''"
    by (simp add: afterStatusCheck_pinWorld wrongPin_pinWorld_0000)
  from wrong_pin_never_reaches_store[OF healthy_pinWorld notLockedOut_pinWorld wp,
      of Financial "codeUnits ''ssn''"]
  obtain pr where v: "fst (verifyUserPin pinWorld exampleUser ''0000'') = Inr pr"
    and g: "getSecretWithPin pinWorld exampleUser ''0000'' Financial (codeUnits ''ssn'') =
           (Inr \<lparr>success = False, secret = None, errorMessage = error pr,
                  lockedField = Some (locked pr),
                  attemptsLeftField = Some (attemptsLeft pr)\<rparr>,
            snd (verifyUserPin pinWorld exampleUser ''0000''))"
    and c: "getSecretCalls
              (snd (getSecretWithPin pinWorld exampleUser ''0000'' Financial (codeUnits ''ssn'')))
       = getSecretCalls pinWorld"
    and d: "budget
              (snd (getSecretWithPin pinWorld exampleUser ''0000'' Financial (codeUnits ''ssn'')))
              exampleUser
           = max 0 (budget pinWorld exampleUser - 1)"
    by blast
  have "fst (verifyUserPin pinWorld exampleUser ''0000'') =
     Inr \<lparr>locked = False, attemptsLeft = 2, unlockTime = None, valid = False,
            error = Some (IncorrectPin 2)\<rparr>"
    using verifyUserPin_wrong_clean_fst[OF healthy_pinWorld wrongPin_pinWorld_0000
        cleanWith_pinWorld]
    by simp
  with v have "pr = \<lparr>locked = False, attemptsLeft = 2, unlockTime = None, valid = False,
            error = Some (IncorrectPin 2)\<rparr>" by simp
  with b g c d lb l show ?thesis by simp
qed

text \<open>
  C6 as stated, for every user and every wrong PIN, fails: while the user is locked out
  a wrong PIN is rejected as locked and the world stays as it was. The budget is 0
  before and after the call.
\<close>

theorem wrong_pin_budget_kept:
  "wrongPin lockedWorld exampleUser ''0000''
   \<and> budget lockedWorld exampleUser = 0
   \<and> getSecretWithPin lockedWorld exampleUser ''0000'' Financial (codeUnits ''ssn'') =
       (Inr \<lparr>success = False, secret = None,
              errorMessage = Some (TooManyUntil (Some 1900000)),
              lockedField = Some True, attemptsLeftField = Some 0\<rparr>, lockedWorld)"
  using getSecretWithPin_invalid[OF verifyUserPin_locked[OF healthy_lockedWorld
        recordedLockedUntil_lockedWorld now_lockedWorld, of "''0000''"],
        of Financial "codeUnits ''ssn''"]
    budget_locked[OF healthy_lockedWorld recordedLockedUntil_lockedWorld now_lockedWorld]
  by (simp add: wrongPin_lockedWorld_0000)

subsection \<open>C7: a successful verification\<close>

text \<open>
  C7. In a healthy world, for every user in the Clean state (with any number \<open>n\<close> of
  failures on record), a verification with the correct PIN succeeds; and every
  successful verification, from whatever state, leaves no lockout record, so that a
  status check at any later time \<open>t\<close> reports the full budget of 3 attempts.
\<close>

theorem success_clears_lockout:
  assumes "healthy w"
  shows "(cleanWith w userId n \<and> correctPin w userId pin \<longrightarrow>
            fst (verifyUserPin w userId pin) =
              Inr \<lparr>locked = False, attemptsLeft = 3, unlockTime = None, valid = True,
                     error = None\<rparr>)
       \<and> (\<forall>r. fst (verifyUserPin w userId pin) = Inr r \<and> valid r \<longrightarrow>
            secrets (snd (verifyUserPin w userId pin)) (getLockoutSecretName userId) = None
          \<and> fst (getLockoutStatus ((snd (verifyUserPin w userId pin))\<lparr>now := t\<rparr>) userId) =
              Inr \<lparr>locked = False, attemptsLeft = 3, unlockTime = None\<rparr>)"
proof (intro conjI impI allI)
  assume "cleanWith w userId n \<and> correctPin w userId pin"
  then show "fst (verifyUserPin w userId pin) =
      Inr \<lparr>locked = False, attemptsLeft = 3, unlockTime = None, valid = True, error = None\<rparr>"
    using verifyUserPin_correct_clean_fst[OF assms] by blast
next
  fix r
  assume a: "fst (verifyUserPin w userId pin) = Inr r \<and> valid r"
  then have "verifyUserPin w userId pin = (Inr r, snd (verifyUserPin w userId pin))"
    by (simp add: prod_eq_iff)
  from valid_only_after_clear[OF assms this] a
  have s: "secrets (snd (verifyUserPin w userId pin)) (getLockoutSecretName userId) = None"
    and h: "healthy (snd (verifyUserPin w userId pin))"
    by simp_all
  show "secrets (snd (verifyUserPin w userId pin)) (getLockoutSecretName userId) = None"
    by (rule s)
  show "fst (getLockoutStatus ((snd (verifyUserPin w userId pin))\<lparr>now := t\<rparr>) userId) =
      Inr \<lparr>locked = False, attemptsLeft = 3, unlockTime = None\<rparr>"
    using s h by (simp add: getLockoutStatus_healthy unlockedStatus_def)
qed

theorem success_clears_lockout_witness:
  "budget twoFailuresWorld exampleUser = 1
   \<and> fst (verifyUserPin twoFailuresWorld exampleUser ''1234'') =
     Inr \<lparr>locked = False, attemptsLeft = 3, unlockTime = None, valid = True, error = None\<rparr>
   \<and> fst (getLockoutStatus
          ((snd (verifyUserPin twoFailuresWorld exampleUser ''1234''))\<lparr>now := 2000000\<rparr>)
          exampleUser) =
     Inr \<lparr>locked = False, attemptsLeft = 3, unlockTime = None\<rparr>"
proof -
  note t = success_clears_lockout[OF healthy_twoFailuresWorld, of exampleUser 2 "''1234''" 2000000]
  have v: "fst (verifyUserPin twoFailuresWorld exampleUser ''1234'') =
     Inr \<lparr>locked = False, attemptsLeft = 3, unlockTime = None, valid = True, error = None\<rparr>"
    using t cleanWith_twoFailuresWorld correctPin_twoFailuresWorld by blast
  with t have "fst (getLockoutStatus
          ((snd (verifyUserPin twoFailuresWorld exampleUser ''1234''))\<lparr>now := 2000000\<rparr>)
          exampleUser) =
     Inr \<lparr>locked = False, attemptsLeft = 3, unlockTime = None\<rparr>"
    by simp
  with v budget_clean[OF healthy_twoFailuresWorld cleanWith_twoFailuresWorld]
  show ?thesis by simp
qed

subsection \<open>C8: setting a PIN of the wrong format\<close>

text \<open>
  C8. For every PIN string that does not match 4-6 decimal digits, \<^verbatim>\<open>saveUserPin\<close> fails
  and leaves the world as it was: no PIN record is created or overwritten, the lockout
  record is not cleared, no store call is made. With the vault URL configured, the
  error is the invalid-format error.
\<close>

theorem saveUserPin_invalid_format:
  assumes "\<not> pinFormat pin"
  shows "snd (saveUserPin w userId pin) = w
       \<and> isl (fst (saveUserPin w userId pin))
       \<and> (getClient w = Inr () \<longrightarrow>
            fst (saveUserPin w userId pin) = Inl (Error ''PIN must be 4-6 digits''))"
  using assms by (simp add: saveUserPin_def split: sum.splits)

theorem saveUserPin_invalid_format_witness:
  "\<not> pinFormat ''12a4''
   \<and> saveUserPin lockedWorld exampleUser ''12a4''
       = (Inl (Error ''PIN must be 4-6 digits''), lockedWorld)"
  using saveUserPin_invalid_format[of "''12a4''" lockedWorld exampleUser]
  by (simp add: pinFormat_def isDigit_def prod_eq_iff lockedWorld_def pinWorld_def
      emptyWorld_def getClient_def)

subsection \<open>C9: verification without a PIN record\<close>

text \<open>
  C9, as amended. In a healthy world, for every user with no PIN record stored and not
  locked out, \<^verbatim>\<open>verifyUserPin\<close> returns \<^verbatim>\<open>valid = false\<close>, \<^verbatim>\<open>locked = false\<close> and the
  error "No PIN set"; it leaves the world as the status check alone leaves it, so no
  failed attempt is recorded, and the attempt budget after the call is the budget before
  it.
\<close>

theorem no_pin_set:
  assumes "healthy w" and "fst (hasUserPin w userId) = Inr False" and "gateOpen w userId"
  shows "fst (verifyUserPin w userId pin) =
           Inr \<lparr>locked = False, attemptsLeft = 3, unlockTime = None, valid = False,
                  error = Some NoPinSet\<rparr>
       \<and> snd (verifyUserPin w userId pin) = snd (getLockoutStatus w userId)
       \<and> budget (snd (verifyUserPin w userId pin)) userId = budget w userId"
proof -
  have np: "secrets w (getPinSecretName userId) = None"
    using assms(1,2) by (simp add: hasUserPin_healthy)
  from assms(3) obtain status w1 where
    g: "getLockoutStatus w userId = (Inr status, w1)" and nl: "\<not> locked status"
    by (cases "getLockoutStatus w userId") (auto simp: gateOpen_def split: sum.splits)
  have b: "budget w1 userId = budget w userId"
  proof -
    from getLockoutStatus_world[OF assms(1) g]
    consider "w1 = w"
      | "w1 = w\<lparr>secrets := (secrets w)(getLockoutSecretName userId := None)\<rparr>"
        "status = unlockedStatus 3"
      by blast
    then show ?thesis
    proof cases
      case 1
      then show ?thesis by simp
    next
      case 2
      have "budget w userId = 3" using g 2(2) by (simp add: budget_def unlockedStatus_def)
      with 2(1) budget_after_clear[OF assms(1), of userId] show ?thesis by simp
    qed
  qed
  show ?thesis
    using verifyUserPin_no_pin[OF assms(1) np g nl, of pin] g b by simp
qed

theorem no_pin_set_witness:
  "verifyUserPin emptyWorld exampleUser ''1234'' =
     (Inr \<lparr>locked = False, attemptsLeft = 3, unlockTime = None, valid = False,
            error = Some NoPinSet\<rparr>, emptyWorld)"
proof -
  have g: "gateOpen emptyWorld exampleUser"
    using getLockoutStatus_clean[OF healthy_emptyWorld cleanWith_emptyWorld]
    by (simp add: gateOpen_def unlockedStatus_def)
  have p: "fst (hasUserPin emptyWorld exampleUser) = Inr False"
    by (simp add: hasUserPin_healthy healthy_emptyWorld) (simp add: emptyWorld_def)
  show ?thesis
    using no_pin_set[OF healthy_emptyWorld p g, of "''1234''"]
      getLockoutStatus_clean[OF healthy_emptyWorld cleanWith_emptyWorld]
    by (simp add: prod_eq_iff)
qed

text \<open>
  C9 as stated, for every user with no PIN record, fails: the lockout is checked first,
  and a user without a PIN record whose lockout record is in force gets
  \<^verbatim>\<open>locked = true\<close> and the lockout message, not "No PIN set".
\<close>

theorem no_pin_but_locked:
  "healthy lockedNoPinWorld
   \<and> fst (hasUserPin lockedNoPinWorld exampleUser) = Inr False
   \<and> fst (verifyUserPin lockedNoPinWorld exampleUser ''1234'') =
       Inr \<lparr>locked = True, attemptsLeft = 0, unlockTime = Some 1900000, valid = False,
              error = Some (TooManyUntil (Some 1900000))\<rparr>"
proof -
  have "now lockedNoPinWorld < 1900000"
    by (simp add: lockedNoPinWorld_def emptyWorld_def)
  from verifyUserPin_locked[OF healthy_lockedNoPinWorld recordedLockedUntil_lockedNoPinWorld this]
  show ?thesis
    by (simp add: healthy_lockedNoPinWorld hasUserPin_healthy) (simp add: lockedNoPinWorld_def)
qed

subsection \<open>C10: verification checks no format\<close>

text \<open>
  C10, as amended. \<^verbatim>\<open>verifyUserPin\<close> checks no format: in a healthy world, for every user
  who is not locked out, and every string whatsoever that does not hash to the hash of
  the PIN record which the status check of the call leaves in place, the call is
  answered as a wrong PIN (\<^verbatim>\<open>valid = false\<close>, with the "Incorrect PIN" message or, when
  the budget is used up, the 15 minutes lockout) and takes one attempt from the budget,
  which does not go below 0; the next status check reports the budget the call
  returned.
\<close>

theorem wrong_string_consumes_attempt:
  assumes "healthy w" and "notLockedOut w userId"
    and "wrongPin (afterStatusCheck w userId) userId pin"
  shows "\<exists>pr. fst (verifyUserPin w userId pin) = Inr pr
       \<and> \<not> valid pr
       \<and> locked pr = (budget w userId \<le> 1)
       \<and> attemptsLeft pr = max 0 (budget w userId - 1)
       \<and> unlockTime pr = (if locked pr then Some (now w + LOCKOUT_DURATION_MS) else None)
       \<and> error pr = Some (if locked pr then TooMany15Minutes else IncorrectPin (attemptsLeft pr))
       \<and> budget (snd (verifyUserPin w userId pin)) userId = attemptsLeft pr"
proof -
  from verifyUserPin_wrong[OF assms]
  obtain pr w' where v: "verifyUserPin w userId pin = (Inr pr, w')"
    and r: "\<not> valid pr" "locked pr = (budget w userId \<le> 1)"
      "attemptsLeft pr = max 0 (budget w userId - 1)"
      "unlockTime pr = (if locked pr then Some (now w + LOCKOUT_DURATION_MS) else None)"
      "error pr = Some (if locked pr then TooMany15Minutes else IncorrectPin (attemptsLeft pr))"
      "budget w' userId = attemptsLeft pr"
    by blast
  show ?thesis
  proof (intro exI[of _ pr] conjI)
    show "fst (verifyUserPin w userId pin) = Inr pr" by (simp add: v)
    show "budget (snd (verifyUserPin w userId pin)) userId = attemptsLeft pr"
      by (simp add: v r(6))
  qed (rule r)+
qed

theorem wrong_string_consumes_attempt_witness:
  "\<not> pinFormat ''12ab''
   \<and> budget pinWorld exampleUser = 3
   \<and> fst (verifyUserPin pinWorld exampleUser ''12ab'') =
       Inr \<lparr>locked = False, attemptsLeft = 2, unlockTime = None, valid = False,
              error = Some (IncorrectPin 2)\<rparr>
   \<and> budget (snd (verifyUserPin pinWorld exampleUser ''12ab'')) exampleUser = 2
   \<and> budget (lockedWorld\<lparr>now := 1900000\<rparr>) exampleUser = 3
   \<and> budget (snd (verifyUserPin (lockedWorld\<lparr>now := 1900000\<rparr>) exampleUser ''12ab''))
       exampleUser = 2"
proof -
  let ?e = "lockedWorld\<lparr>now := 1900000\<rparr>"
  have eb: "budget ?e exampleUser = 3"
    using budget_expired[OF expired_lockedWorld(1,2)] by simp
  have "afterStatusCheck ?e exampleUser
          = ?e\<lparr>secrets := (secrets ?e)(getLockoutSecretName exampleUser := None)\<rparr>"
    using afterStatusCheck_expired[OF expired_lockedWorld(1,2)] by simp
  moreover have "wrongPin
      (?e\<lparr>secrets := (secrets ?e)(getLockoutSecretName exampleUser := None)\<rparr>)
      exampleUser ''12ab''"
    using wrongPin_other_secret[of "getLockoutSecretName exampleUser" exampleUser ?e None "''12ab''"]
    by (simp add: wrongPin_lockedWorld_12ab)
  ultimately have ewp: "wrongPin (afterStatusCheck ?e exampleUser) exampleUser ''12ab''"
    by simp
  from wrong_string_consumes_attempt[OF expired_lockedWorld(1,4) ewp] eb
  have e: "budget (snd (verifyUserPin ?e exampleUser ''12ab'')) exampleUser = 2"
    by auto
  have b: "budget pinWorld exampleUser = 3"
    using budget_clean[OF healthy_pinWorld cleanWith_pinWorld] by simp
  have wp: "wrongPin (afterStatusCheck pinWorld exampleUser) exampleUser ''12ab''"
    by (simp add: afterStatusCheck_pinWorld wrongPin_pinWorld_12ab)
  from wrong_string_consumes_attempt[OF healthy_pinWorld notLockedOut_pinWorld wp]
  obtain pr where v: "fst (verifyUserPin pinWorld exampleUser ''12ab'') = Inr pr"
    and r: "\<not> valid pr" "locked pr = (budget pinWorld exampleUser \<le> 1)"
      "attemptsLeft pr = max 0 (budget pinWorld exampleUser - 1)"
      "unlockTime pr = (if locked pr then Some (now pinWorld + LOCKOUT_DURATION_MS) else None)"
      "error pr = Some (if locked pr then TooMany15Minutes else IncorrectPin (attemptsLeft pr))"
      "budget (snd (verifyUserPin pinWorld exampleUser ''12ab'')) exampleUser = attemptsLeft pr"
    by blast
  have "pr = \<lparr>locked = False, attemptsLeft = 2, unlockTime = None, valid = False,
              error = Some (IncorrectPin 2)\<rparr>"
    using r b by (intro pinResult.equality) simp_all
  with v r(6) b eb e show ?thesis by (simp add: pinFormat_def isDigit_def)
qed

text \<open>
  C10 as stated, for every user with a PIN set, fails: while the user is locked out, a
  string that does not hash to the stored hash is rejected as locked, and the world,
  lockout record included, stays as it was. No attempt is taken.
\<close>

theorem wrong_string_not_counted:
  "wrongPin lockedWorld exampleUser ''12ab''
   \<and> verifyUserPin lockedWorld exampleUser ''12ab'' =
       (Inr \<lparr>locked = True, attemptsLeft = 0, unlockTime = Some 1900000, valid = False,
              error = Some (TooManyUntil (Some 1900000))\<rparr>, lockedWorld)"
  using verifyUserPin_locked[OF healthy_lockedWorld recordedLockedUntil_lockedWorld now_lockedWorld]
  by (simp add: wrongPin_lockedWorld_12ab)

end
